theory Spec2Isabelle
  imports Complex_Main "HOL-Library.Sublist"
begin

section \<open>The analytics dashboard of app.py\<close>

text \<open>
  The module builds one table of 100 daily rows (\<open>create_sample_data\<close>), and its
  \<open>server\<close> function defines a date filter over that table and six outputs computed
  from the filtered table.  The table is a pandas DataFrame; it is modelled row by row,
  with the one column the code ever adds (\<open>ma\<close>) as an optional extra column.

  Conventions of the model.
  \<^item> A date is the number of days since 1970-01-01, so the order of dates is the order
    of integers and \<open>freq='D'\<close> is \<open>+ 1\<close>.  The date column holds datetime64 values
    (midnight of each day); a value it is compared with is a \<open>datetime.date\<close> or a
    pandas Timestamp, and the comparison depends on which.
  \<^item> A float64 value is a real number and NaN is \<open>None\<close>: sums, means and quotients
    are exact, the rounding of binary floating point is not modelled.
  \<^item> A Python exception is a value of \<open>py_error\<close>, returned as \<open>Inl\<close>.
\<close>

subsection \<open>Errors, dates, rows and frames\<close>

datatype py_error =
  NameError string | IndexError | KeyError string | ValueError | DataError | TypeError

type_synonym date = int

text \<open>
  What the date column can be compared with: a \<open>datetime.date\<close>, which is what the
  date range input of the page delivers, or a pandas Timestamp at midnight of a day.
\<close>

datatype date_operand = Py_date date | Pd_timestamp date

text \<open>The day number of a calendar date of the proleptic Gregorian calendar.\<close>

definition days_from_civil :: "int \<Rightarrow> int \<Rightarrow> int \<Rightarrow> date" where
  "days_from_civil y m d =
     (let y1 = (if m \<le> 2 then y - 1 else y);
          era = y1 div 400;
          yoe = y1 - era * 400;
          doy = (153 * (m + (if 2 < m then - 3 else 9)) + 2) div 5 + d - 1;
          doe = yoe * 365 + yoe div 4 - yoe div 100 + doy
      in era * 146097 + doe - 719468)"

record row =
  label :: nat
  date :: date
  sales :: real
  users :: int
  conversion :: real

record data_frame =
  rows :: "row list"
  ma :: "real option list option"

subsection \<open>Boolean masks and the date filter\<close>

text \<open>
  \<open>df['date'] >= a\<close> and \<open>df['date'] <= b\<close> compare the datetime64 column with one
  value.  With a Timestamp the comparison is element-wise and gives a boolean column.
  With a \<open>datetime.date\<close> pandas refuses an ordering comparison and raises TypeError,
  whatever the column holds.  \<open>&\<close> is the element-wise conjunction of two boolean
  columns, and \<open>df[mask]\<close> builds a new frame of the rows whose mask entry is true,
  every column cut alike.
\<close>

definition series_ge :: "date list \<Rightarrow> date_operand \<Rightarrow> py_error + bool list" where
  "series_ge xs v =
     (case v of Pd_timestamp d \<Rightarrow> Inr (map (\<lambda>x. d \<le> x) xs) | Py_date d \<Rightarrow> Inl TypeError)"

definition series_le :: "date list \<Rightarrow> date_operand \<Rightarrow> py_error + bool list" where
  "series_le xs v =
     (case v of Pd_timestamp d \<Rightarrow> Inr (map (\<lambda>x. x \<le> d) xs) | Py_date d \<Rightarrow> Inl TypeError)"

definition mask_and :: "bool list \<Rightarrow> bool list \<Rightarrow> bool list" where
  "mask_and a b = map2 (\<and>) a b"

fun getitem_mask :: "'a list \<Rightarrow> bool list \<Rightarrow> 'a list" where
  "getitem_mask (x # xs) (b # bs) =
     (if b then x # getitem_mask xs bs else getitem_mask xs bs)"
| "getitem_mask xs bs = []"

definition frame_mask :: "data_frame \<Rightarrow> bool list \<Rightarrow> data_frame" where
  "frame_mask df m =
     \<lparr>rows = getitem_mask (rows df) m,
      ma = map_option (\<lambda>c. getitem_mask c m) (ma df)\<rparr>"

text \<open>
  The body of \<open>filtered_data\<close> (lines 75 to 77): the module's table \<open>df\<close> and the
  value of \<open>input.date_range()\<close> are its two inputs.  The left comparison of line 76
  is evaluated first, then the right one, then their conjunction.
\<close>

definition filtered_data ::
    "data_frame \<Rightarrow> date_operand \<times> date_operand \<Rightarrow> py_error + data_frame" where
  "filtered_data df date_range =
     (case series_ge (map date (rows df)) (fst date_range) of
        Inl e \<Rightarrow> Inl e
      | Inr lower \<Rightarrow>
          (case series_le (map date (rows df)) (snd date_range) of
             Inl e \<Rightarrow> Inl e
           | Inr upper \<Rightarrow> Inr (frame_mask df (mask_and lower upper))))"

subsection \<open>The table generator\<close>

text \<open>
  numpy's generator is outside the repository: it enters as a record of its four
  operations over a generator state \<open>'g\<close>.  \<open>np.random.seed\<close> replaces the global
  state, and every draw of \<open>n\<close> samples returns them with the next state.
\<close>

record 'g np_random =
  rng_seed :: "nat \<Rightarrow> 'g"
  rng_normal :: "real \<Rightarrow> real \<Rightarrow> nat \<Rightarrow> 'g \<Rightarrow> real list \<times> 'g"
  rng_poisson :: "real \<Rightarrow> nat \<Rightarrow> 'g \<Rightarrow> nat list \<times> 'g"
  rng_uniform :: "real \<Rightarrow> real \<Rightarrow> nat \<Rightarrow> 'g \<Rightarrow> real list \<times> 'g"

definition pd_date_range :: "date \<Rightarrow> nat \<Rightarrow> date list" where
  "pd_date_range start periods = map (\<lambda>i. start + int i) [0..<periods]"

fun cumsum_from :: "real \<Rightarrow> real list \<Rightarrow> real list" where
  "cumsum_from acc [] = []"
| "cumsum_from acc (x # xs) = (acc + x) # cumsum_from (acc + x) xs"

definition np_cumsum :: "real list \<Rightarrow> real list" where
  "np_cumsum xs = cumsum_from 0 xs"

text \<open>
  \<open>pd.DataFrame\<close> of the four columns: it raises ValueError unless all columns have
  one length, and labels the rows \<open>0, 1, 2, ...\<close>.
\<close>

definition pd_DataFrame ::
    "date list \<Rightarrow> real list \<Rightarrow> nat list \<Rightarrow> real list \<Rightarrow> py_error + data_frame" where
  "pd_DataFrame ds ss us cs =
     (if length ss = length ds \<and> length us = length ds \<and> length cs = length ds
      then Inr \<lparr>rows = map (\<lambda>i. \<lparr>label = i, date = ds ! i, sales = ss ! i,
                                  users = int (us ! i), conversion = cs ! i\<rparr>)
                            [0..<length ds],
                ma = None\<rparr>
      else Inl ValueError)"

text \<open>
  \<open>create_sample_data\<close> (lines 7 to 16).  The first argument is the library, the
  second the global generator state before the call; the result is the table (or the
  constructor's error) and the state after the call.
\<close>

definition create_sample_data :: "'g np_random \<Rightarrow> 'g \<Rightarrow> (py_error + data_frame) \<times> 'g" where
  "create_sample_data np g =
     (let g0 = rng_seed np 123;
          dates = pd_date_range (days_from_civil 2023 1 1) 100;
          (zs, g1) = rng_normal np 1000 200 100 g0;
          (ps, g2) = rng_poisson np 500 100 g1;
          (cs, g3) = rng_uniform np (1 / 100) (5 / 100) 100 g2
      in (pd_DataFrame dates (np_cumsum zs) ps cs, g3))"

subsection \<open>Positional access, means and number formatting\<close>

text \<open>\<open>.iloc[i]\<close>: a negative position counts from the end, a position outside raises.\<close>

definition iloc :: "'a list \<Rightarrow> int \<Rightarrow> py_error + 'a" where
  "iloc xs i =
     (if 0 \<le> i \<and> i < int (length xs) then Inr (xs ! nat i)
      else if i < 0 \<and> - int (length xs) \<le> i then Inr (xs ! nat (int (length xs) + i))
      else Inl IndexError)"

text \<open>\<open>.mean()\<close>: NaN on an empty column.\<close>

definition series_mean :: "real list \<Rightarrow> real option" where
  "series_mean xs = (if xs = [] then None else Some (sum_list xs / real (length xs)))"

text \<open>Rounding to the nearest integer, a tie going to the even neighbour.\<close>

definition round_half_even :: "real \<Rightarrow> int" where
  "round_half_even x =
     (let f = \<lfloor>x\<rfloor>; r = x - of_int f
      in if r < 1 / 2 then f else if 1 / 2 < r then f + 1
         else if even f then f else f + 1)"

fun digits :: "nat \<Rightarrow> string" where
  "digits n =
     (if n < 10 then [''0123456789'' ! n]
      else digits (n div 10) @ [''0123456789'' ! (n mod 10)])"

declare digits.simps [simp del]

text \<open>A comma after every third digit, counted from the right.\<close>

fun group_rev :: "string \<Rightarrow> string" where
  "group_rev (a # b # c # d # ds) = a # b # c # CHR '','' # group_rev (d # ds)"
| "group_rev ds = ds"

definition thousands :: "string \<Rightarrow> string" where
  "thousands ds = rev (group_rev (rev ds))"

definition zero_pad :: "nat \<Rightarrow> string \<Rightarrow> string" where
  "zero_pad w ds = replicate (w - length ds) (CHR ''0'') @ ds"

text \<open>
  Python's fixed-point presentation \<open>f\<close> of a finite number with \<open>prec\<close> digits after
  the point, with the \<open>,\<close> option when \<open>grouping\<close>: the sign, the integer part of
  the rounded magnitude, and the point with the fraction digits unless \<open>prec = 0\<close>.
\<close>

definition format_fixed :: "bool \<Rightarrow> nat \<Rightarrow> real \<Rightarrow> string" where
  "format_fixed grouping prec x =
     (let n = nat (round_half_even (\<bar>x\<bar> * 10 ^ prec));
          ip = digits (n div 10 ^ prec);
          fp = zero_pad prec (digits (n mod 10 ^ prec))
      in (if x < 0 then ''-'' else [])
         @ (if grouping then thousands ip else ip)
         @ (if prec = 0 then [] else ''.'' @ fp))"

text \<open>The three format specifications of the outputs; NaN prints as \<open>nan\<close>.\<close>

definition format_comma_0f :: "real option \<Rightarrow> string" where
  "format_comma_0f v = (case v of None \<Rightarrow> ''nan'' | Some x \<Rightarrow> format_fixed True 0 x)"

definition format_0f :: "real option \<Rightarrow> string" where
  "format_0f v = (case v of None \<Rightarrow> ''nan'' | Some x \<Rightarrow> format_fixed False 0 x)"

definition format_2pct :: "real option \<Rightarrow> string" where
  "format_2pct v =
     (case v of None \<Rightarrow> ''nan%'' | Some x \<Rightarrow> format_fixed False 2 (x * 100) @ ''%'')"

subsection \<open>The three value boxes\<close>

text \<open>
  In each output the line \<open>data = filtered_data()\<close> is the argument \<open>data\<close>.
\<close>

definition total_sales :: "data_frame \<Rightarrow> py_error + string" where
  "total_sales data =
     (case iloc (map sales (rows data)) (- 1) of
        Inl e \<Rightarrow> Inl e
      | Inr x \<Rightarrow> Inr (''$'' @ format_comma_0f (Some x)))"

definition avg_users :: "data_frame \<Rightarrow> py_error + string" where
  "avg_users data = Inr (format_0f (series_mean (map (\<lambda>r. real_of_int (users r)) (rows data))))"

definition conv_rate :: "data_frame \<Rightarrow> py_error + string" where
  "conv_rate data = Inr (format_2pct (series_mean (map conversion (rows data))))"

subsection \<open>The trend plot\<close>

text \<open>The keys of the choices of the metric selector (lines 27 to 29).\<close>

definition metric_choices :: "string list" where
  "metric_choices = [''sales'', ''users'', ''conversion'']"

text \<open>
  \<open>data[metric]\<close> as the numeric column that \<open>.rolling\<close> works on.  A name that is
  no column raises KeyError; the date column is not numeric, and the rolling mean
  refuses it.
\<close>

definition metric_series :: "data_frame \<Rightarrow> string \<Rightarrow> py_error + real option list" where
  "metric_series data name =
     (if name = ''sales'' then Inr (map (\<lambda>r. Some (sales r)) (rows data))
      else if name = ''users'' then Inr (map (\<lambda>r. Some (real_of_int (users r))) (rows data))
      else if name = ''conversion'' then Inr (map (\<lambda>r. Some (conversion r)) (rows data))
      else if name = ''ma'' then (case ma data of None \<Rightarrow> Inl (KeyError name) | Some c \<Rightarrow> Inr c)
      else if name = ''date'' then Inl DataError
      else Inl (KeyError name))"

text \<open>
  \<open>.rolling(window=w).mean()\<close>: the window of position \<open>i\<close> holds the positions
  \<open>i - w + 1\<close> to \<open>i\<close> that exist; the result there is the mean of the window's
  values that are not NaN when there are at least \<open>min_periods\<close> of them, and NaN
  otherwise.  \<open>min_periods\<close> is not given, so it is the window size.
\<close>

definition window_values :: "nat \<Rightarrow> real option list \<Rightarrow> nat \<Rightarrow> real list" where
  "window_values w xs i =
     (let start = Suc i - w
      in List.map_filter (\<lambda>v. v) (take (Suc i - start) (drop start xs)))"

definition rolling_mean :: "nat \<Rightarrow> real option list \<Rightarrow> real option list" where
  "rolling_mean w xs =
     map (\<lambda>i. let obs = window_values w xs i; min_periods = w
              in if min_periods \<le> length obs \<and> 0 < length obs
                 then Some (sum_list obs / real (length obs)) else None)
         [0..<length xs]"

text \<open>\<open>str.title()\<close> on ASCII text: every letter that follows a non-letter becomes
  upper case, every other letter lower case.\<close>

definition is_lower :: "char \<Rightarrow> bool" where
  "is_lower c = (97 \<le> (of_char c :: nat) \<and> (of_char c :: nat) \<le> 122)"

definition is_upper :: "char \<Rightarrow> bool" where
  "is_upper c = (65 \<le> (of_char c :: nat) \<and> (of_char c :: nat) \<le> 90)"

fun title_from :: "bool \<Rightarrow> string \<Rightarrow> string" where
  "title_from inside [] = []"
| "title_from inside (c # cs) =
     (if is_lower c then (if inside then c else char_of (of_char c - (32::nat))) # title_from True cs
      else if is_upper c then (if inside then char_of (of_char c + (32::nat)) else c) # title_from True cs
      else c # title_from False cs)"

definition str_title :: "string \<Rightarrow> string" where
  "str_title s = title_from False s"

fun int_str :: "int \<Rightarrow> string" where
  "int_str i = (if i < 0 then ''-'' @ digits (nat (- i)) else digits (nat i))"

text \<open>
  What \<open>trend_plot\<close> draws: the two lines (each a list of points, the second with
  gaps where the moving average is NaN), the legend label of the second, and the
  title.  Size, transparency, grid and tick rotation are not part of the model.
\<close>

record figure =
  daily_line :: "(date \<times> real option) list"
  ma_line :: "(date \<times> real option) list"
  ma_label :: string
  fig_title :: string

text \<open>
  \<open>trend_plot\<close> (lines 99 to 115).  Line 105 reads the metric's column, takes its
  rolling mean and assigns it as the column \<open>ma\<close> on the frame that
  \<open>filtered_data()\<close> returned; lines 108 and 109 read the metric's column and the
  column \<open>ma\<close> again, from the frame as it is after the assignment.  The second
  component of the result is that frame as the call leaves it.
\<close>

definition trend_plot ::
    "data_frame \<Rightarrow> string \<Rightarrow> nat \<Rightarrow> (py_error + figure) \<times> data_frame" where
  "trend_plot data metric window =
     (case metric_series data metric of
        Inl e \<Rightarrow> (Inl e, data)
      | Inr col \<Rightarrow>
          (let data1 = data\<lparr>ma := Some (rolling_mean window col)\<rparr>
           in case metric_series data1 metric of
                Inl e \<Rightarrow> (Inl e, data1)
              | Inr daily \<Rightarrow>
                  (case metric_series data1 ''ma'' of
                     Inl e \<Rightarrow> (Inl e, data1)
                   | Inr moving \<Rightarrow>
                       (Inr \<lparr>daily_line = zip (map date (rows data1)) daily,
                             ma_line = zip (map date (rows data1)) moving,
                             ma_label = int_str (int window) @ ''-day MA'',
                             fig_title = str_title metric @ '' Over Time''\<rparr>,
                        data1))))"

subsection \<open>The summary table\<close>

record stats =
  st_count :: real
  st_mean :: "real option"
  st_std :: "real option"
  st_min :: "real option"
  st_q25 :: "real option"
  st_q50 :: "real option"
  st_q75 :: "real option"
  st_max :: "real option"

text \<open>\<open>.std()\<close> with one delta degree of freedom: NaN unless there are two values.\<close>

definition series_std :: "real list \<Rightarrow> real option" where
  "series_std xs =
     (let n = length xs
      in if n \<le> 1 then None
         else (let avg = sum_list xs / real n;
                   sqr = sum_list (map (\<lambda>x. (avg - x)\<^sup>2) xs)
               in Some (sqrt (sqr / real (n - 1)))))"

definition series_min :: "real list \<Rightarrow> real option" where
  "series_min xs = (case xs of [] \<Rightarrow> None | x # ys \<Rightarrow> Some (fold min ys x))"

definition series_max :: "real list \<Rightarrow> real option" where
  "series_max xs = (case xs of [] \<Rightarrow> None | x # ys \<Rightarrow> Some (fold max ys x))"

text \<open>
  \<open>.quantile(q)\<close> with the default linear interpolation: in the sorted values, the
  virtual position \<open>q * (n - 1)\<close> lies between a position and its successor (kept
  inside the column), and the result interpolates between the two values.
\<close>

definition series_quantile :: "real \<Rightarrow> real list \<Rightarrow> real option" where
  "series_quantile q xs =
     (if xs = [] then None
      else (let s = sort xs;
                pos = q * real (length xs - 1);
                lo = nat \<lfloor>pos\<rfloor>;
                hi = min (lo + 1) (length xs - 1);
                t = pos - real lo
            in Some (s ! lo + (s ! hi - s ! lo) * t)))"

definition describe :: "real list \<Rightarrow> stats" where
  "describe xs =
     \<lparr>st_count = real (length xs), st_mean = series_mean xs, st_std = series_std xs,
      st_min = series_min xs, st_q25 = series_quantile (1 / 4) xs,
      st_q50 = series_quantile (1 / 2) xs, st_q75 = series_quantile (3 / 4) xs,
      st_max = series_max xs\<rparr>"

text \<open>\<open>.round(2)\<close>: scale by 100, round half to even, scale back; NaN stays NaN.\<close>

definition round2 :: "real \<Rightarrow> real" where
  "round2 x = real_of_int (round_half_even (x * 100)) / 100"

definition round_stats :: "stats \<Rightarrow> stats" where
  "round_stats s =
     \<lparr>st_count = round2 (st_count s), st_mean = map_option round2 (st_mean s),
      st_std = map_option round2 (st_std s), st_min = map_option round2 (st_min s),
      st_q25 = map_option round2 (st_q25 s), st_q50 = map_option round2 (st_q50 s),
      st_q75 = map_option round2 (st_q75 s), st_max = map_option round2 (st_max s)\<rparr>"

text \<open>\<open>summary_table\<close> (lines 119 to 122): one column of statistics for each of the
  three selected columns, in the order of the selection.\<close>

definition summary_table :: "data_frame \<Rightarrow> (string \<times> stats) list" where
  "summary_table data =
     [(''sales'', round_stats (describe (map sales (rows data)))),
      (''users'', round_stats (describe (map (\<lambda>r. real_of_int (users r)) (rows data)))),
      (''conversion'', round_stats (describe (map conversion (rows data))))]"

text \<open>\<open>raw_data\<close> (lines 126 to 128) hands the frame to the grid as it is.\<close>

definition raw_data :: "data_frame \<Rightarrow> data_frame" where
  "raw_data data = data"

subsection \<open>The session: inputs, the memoised filter, the output bodies\<close>

text \<open>
  A session holds the three inputs and the value that \<open>reactive.Calc\<close> keeps for
  \<open>filtered_data\<close>.  The date range input (line 23) delivers its two dates as
  \<open>datetime.date\<close> values.  The calc returns the object it holds; when it holds
  none it runs its body, and keeps the result only if the body returned one: an
  exception of the body passes to the caller and nothing is held.  A change of the
  date range, the only input the body reads, drops the held value.
\<close>

record session =
  date_range :: "date \<times> date"
  metric :: string
  window :: nat
  cached :: "data_frame option"

definition input_date_range :: "session \<Rightarrow> date_operand \<times> date_operand" where
  "input_date_range s = (Py_date (fst (date_range s)), Py_date (snd (date_range s)))"

definition filtered_data_calc ::
    "data_frame \<Rightarrow> session \<Rightarrow> (py_error + data_frame) \<times> session" where
  "filtered_data_calc df s =
     (case cached s of
        Some v \<Rightarrow> (Inr v, s)
      | None \<Rightarrow>
          (case filtered_data df (input_date_range s) of
             Inl e \<Rightarrow> (Inl e, s)
           | Inr v \<Rightarrow> (Inr v, s\<lparr>cached := Some v\<rparr>)))"

definition set_date_range :: "date \<times> date \<Rightarrow> session \<Rightarrow> session" where
  "set_date_range r s = s\<lparr>date_range := r, cached := None\<rparr>"

datatype output_id = Total_sales | Avg_users | Conv_rate | Trend_plot | Summary_table | Raw_data

datatype rendered =
  Text string | Plot figure | Table "(string \<times> stats) list" | Grid data_frame

text \<open>
  The body of an output from the line after \<open>data = filtered_data()\<close> on, with the
  values of \<open>input.metric()\<close> and \<open>input.window()\<close>: what it returns or raises, and
  the frame \<open>data\<close> as the body leaves it.
\<close>

definition output_body ::
    "output_id \<Rightarrow> string \<Rightarrow> nat \<Rightarrow> data_frame \<Rightarrow> (py_error + rendered) \<times> data_frame" where
  "output_body out m w data =
     (case out of
        Total_sales \<Rightarrow> (map_sum id Text (total_sales data), data)
      | Avg_users \<Rightarrow> (map_sum id Text (avg_users data), data)
      | Conv_rate \<Rightarrow> (map_sum id Text (conv_rate data), data)
      | Trend_plot \<Rightarrow> (case trend_plot data m w of (r, data1) \<Rightarrow> (map_sum id Plot r, data1))
      | Summary_table \<Rightarrow> (Inr (Table (summary_table data)), data)
      | Raw_data \<Rightarrow> (Inr (Grid (raw_data data)), data))"

subsection \<open>Names of the module and the server function\<close>

text \<open>
  The names the module binds at top level, in the order of their binding (lines 1 to 4,
  7, 18, 20, 71 and 130), and the parameters of \<open>server\<close>.  A name that a function
  does not assign is looked up among its own names, then the module's, then the
  built-in ones; a name found nowhere raises NameError.
\<close>

definition module_globals :: "string list" where
  "module_globals =
     [''App'', ''render'', ''ui'', ''pd'', ''plt'', ''np'',
      ''create_sample_data'', ''df'', ''app_ui'', ''server'', ''app'']"

definition server_params :: "string list" where
  "server_params = [''input'', ''output'', ''session'']"

definition load_name :: "string list \<Rightarrow> string list \<Rightarrow> string \<Rightarrow> py_error + unit" where
  "load_name locals builtins name =
     (if name \<in> set locals \<or> name \<in> set module_globals \<or> name \<in> set builtins
      then Inr () else Inl (NameError name))"

text \<open>
  \<open>server\<close> (lines 71 to 128).  Its first statement is the definition of
  \<open>filtered_data\<close>, whose decorator expression \<open>reactive.Calc\<close> is evaluated before
  anything else.  When the call returns, the six outputs are registered.
\<close>

definition server :: "string list \<Rightarrow> py_error + output_id list" where
  "server builtins =
     (case load_name server_params builtins ''reactive'' of
        Inl e \<Rightarrow> Inl e
      | Inr u \<Rightarrow> Inr [Total_sales, Avg_users, Conv_rate, Trend_plot, Summary_table, Raw_data])"

text \<open>
  One output of one session.  The server function runs first; if it returns, the
  output's function asks the calc for the frame, and if the calc returns one, runs
  its body on that object, which stays the object the calc holds.
\<close>

definition session_output ::
    "string list \<Rightarrow> data_frame \<Rightarrow> output_id \<Rightarrow> session \<Rightarrow> (py_error + rendered) \<times> session" where
  "session_output builtins df out s =
     (case server builtins of
        Inl e \<Rightarrow> (Inl e, s)
      | Inr outs \<Rightarrow>
          if out \<in> set outs
          then (case filtered_data_calc df s of
                  (Inl e, s1) \<Rightarrow> (Inl e, s1)
                | (Inr data, s1) \<Rightarrow>
                    (case output_body out (metric s1) (window s1) data of
                       (r, data1) \<Rightarrow> (r, s1\<lparr>cached := Some data1\<rparr>)))
          else (Inl (KeyError ''output''), s))"

subsection \<open>Reading a printed number\<close>

text \<open>
  What the formats are measured against: a decimal digit and its value, the number a
  string of digits denotes, digit groups separated by commas (every group but the
  first of exactly three digits, the first of one to three), and the arithmetic mean.
\<close>

definition is_digit :: "char \<Rightarrow> bool" where
  "is_digit c = (48 \<le> (of_char c :: nat) \<and> (of_char c :: nat) \<le> 57)"

definition digit_val :: "char \<Rightarrow> nat" where
  "digit_val c = of_char c - 48"

definition read_nat :: "string \<Rightarrow> nat" where
  "read_nat s = foldl (\<lambda>a c. 10 * a + digit_val c) 0 s"

definition grouped_by_thousands :: "string \<Rightarrow> bool" where
  "grouped_by_thousands s =
     (length s mod 4 \<noteq> 0 \<and>
      (\<forall>i < length s. if (length s - i) mod 4 = 0 then s ! i = CHR '','' else is_digit (s ! i)))"

definition arithmetic_mean :: "real list \<Rightarrow> real" where
  "arithmetic_mean xs = sum_list xs / real (length xs)"

subsection \<open>Descriptive statistics, as the specification words them\<close>

text \<open>
  The sample standard deviation (denominator \<open>n - 1\<close>), the percentile by linear
  interpolation between the two sorted values around the position \<open>q (n - 1)\<close>, a
  value rounded to two decimal digits (a multiple of 0.01 at most 0.005 away), and
  what a column of the summary must hold for a column of values.
\<close>

definition sample_sd :: "real list \<Rightarrow> real" where
  "sample_sd xs =
     sqrt ((\<Sum>x\<leftarrow>xs. (x - arithmetic_mean xs)\<^sup>2) / (real (length xs) - 1))"

definition percentile_linear :: "real \<Rightarrow> real list \<Rightarrow> real" where
  "percentile_linear q xs =
     (let s = sort xs; h = q * (real (length xs) - 1)
      in s ! nat \<lfloor>h\<rfloor> + (h - of_int \<lfloor>h\<rfloor>) * (s ! nat \<lceil>h\<rceil> - s ! nat \<lfloor>h\<rfloor>))"

definition rounded_to_2 :: "real option \<Rightarrow> real \<Rightarrow> bool" where
  "rounded_to_2 v y =
     (case v of None \<Rightarrow> False
      | Some r \<Rightarrow> of_int \<lfloor>r * 100\<rfloor> = r * 100 \<and> \<bar>r - y\<bar> \<le> 1 / 200)"

definition summarises :: "real list \<Rightarrow> stats \<Rightarrow> bool" where
  "summarises xs st =
     (st_count st = real (length xs)
      \<and> (if xs = []
         then st_mean st = None \<and> st_std st = None \<and> st_min st = None \<and> st_q25 st = None
            \<and> st_q50 st = None \<and> st_q75 st = None \<and> st_max st = None
         else rounded_to_2 (st_mean st) (arithmetic_mean xs)
            \<and> rounded_to_2 (st_min st) (Min (set xs))
            \<and> rounded_to_2 (st_q25 st) (percentile_linear (1 / 4) xs)
            \<and> rounded_to_2 (st_q50 st) (percentile_linear (1 / 2) xs)
            \<and> rounded_to_2 (st_q75 st) (percentile_linear (3 / 4) xs)
            \<and> rounded_to_2 (st_max st) (Max (set xs))
            \<and> (if length xs = 1 then st_std st = None
                else rounded_to_2 (st_std st) (sample_sd xs))))"

subsection \<open>A small table for concrete checks\<close>

definition example_rows :: "row list" where
  "example_rows =
     [\<lparr>label = 0, date = 19358, sales = 1000, users = 500, conversion = 1 / 50\<rparr>,
      \<lparr>label = 1, date = 19359, sales = 4691 / 2, users = 503, conversion = 3 / 100\<rparr>,
      \<lparr>label = 2, date = 19360, sales = 2469135 / 2, users = 498, conversion = 1 / 25\<rparr>]"

definition example_df :: data_frame where
  "example_df = \<lparr>rows = example_rows, ma = None\<rparr>"

definition empty_frame :: data_frame where
  "empty_frame = \<lparr>rows = [], ma = None\<rparr>"

definition example_session :: session where
  "example_session =
     \<lparr>date_range = (19358, 19360), metric = ''users'', window = 2, cached = None\<rparr>"

text \<open>A deterministic stand-in for the generator library, for concrete checks.\<close>

definition example_np :: "nat np_random" where
  "example_np =
     \<lparr>rng_seed = (\<lambda>n. n),
      rng_normal = (\<lambda>mu sd n g. (map (\<lambda>i. mu + sd * real (g + i)) [0..<n], g + n)),
      rng_poisson = (\<lambda>lam n g. (map (\<lambda>i. nat \<lfloor>lam\<rfloor> + (g + i) mod 2) [0..<n], g + n)),
      rng_uniform = (\<lambda>lo hi n g. (map (\<lambda>i. if even (g + i) then lo else hi) [0..<n], g + n))\<rparr>"

section \<open>Properties\<close>

subsection \<open>The filter\<close>

lemma getitem_mask_map: "getitem_mask xs (map P xs) = filter P xs"
  by (induction xs) simp_all

lemma getitem_mask_all_True:
  "length xs \<le> n \<Longrightarrow> getitem_mask xs (replicate n True) = xs"
proof (induction xs arbitrary: n)
  case Nil
  then show ?case by simp
next
  case (Cons x xs)
  then obtain k where "n = Suc k" by (cases n) auto
  with Cons show ?case by simp
qed

lemma length_getitem_mask:
  "length (getitem_mask xs bs) \<le> length (filter id bs)"
  by (induction xs bs rule: getitem_mask.induct) simp_all

lemma date_filter_map:
  "mask_and (map (\<lambda>x. a \<le> x) (map date rs)) (map (\<lambda>x. x \<le> b) (map date rs)) =
     map (\<lambda>r. a \<le> date r \<and> date r \<le> b) rs"
  by (induction rs) (simp_all add: mask_and_def)

text \<open>
  The range that the page delivers is a pair of \<open>datetime.date\<close> values: the first
  comparison of line 76 raises TypeError, for every table, every range and every
  session, and the calc holds nothing afterwards.
\<close>

lemma filtered_data_py_date: "filtered_data df (Py_date a, b) = Inl TypeError"
  by (simp add: filtered_data_def series_ge_def)

lemma filtered_data_input: "filtered_data df (input_date_range s) = Inl TypeError"
  by (simp add: input_date_range_def filtered_data_py_date)

lemma filtered_data_calc_raises:
  "cached s = None \<Longrightarrow> filtered_data_calc df s = (Inl TypeError, s)"
  by (simp add: filtered_data_calc_def filtered_data_input)

lemma server_bound: "''reactive'' \<in> set builtins \<Longrightarrow>
    server builtins = Inr [Total_sales, Avg_users, Conv_rate, Trend_plot, Summary_table, Raw_data]"
  by (simp add: server_def load_name_def)

lemma session_output_bound:
  assumes "''reactive'' \<in> set builtins" and "cached s = None"
  shows "session_output builtins df out s = (Inl TypeError, s)"
proof -
  have "out \<in> set [Total_sales, Avg_users, Conv_rate, Trend_plot, Summary_table, Raw_data]"
    by (cases out) simp_all
  with assms show ?thesis
    by (simp add: session_output_def server_bound filtered_data_calc_raises)
qed

lemma session_output_unbound:
  assumes "''reactive'' \<notin> set builtins"
  shows "session_output builtins df out s = (Inl (NameError ''reactive''), s)"
proof -
  from assms
  have "load_name server_params builtins ''reactive'' = Inl (NameError ''reactive'')"
    by (simp add: load_name_def module_globals_def server_params_def)
  then show ?thesis
    by (simp add: session_output_def server_def)
qed

text \<open>
  With two Timestamps, which no input of the page delivers, the comparisons succeed,
  and the filter keeps exactly the rows of the interval, in the table's order.
\<close>

lemma filtered_data_timestamps:
  "filtered_data df (Pd_timestamp a, Pd_timestamp b) =
     Inr (frame_mask df (map (\<lambda>r. a \<le> date r \<and> date r \<le> b) (rows df)))"
  by (simp add: filtered_data_def series_ge_def series_le_def date_filter_map del: map_map)

lemma rows_frame_mask_map: "rows (frame_mask df (map P (rows df))) = filter P (rows df)"
  by (simp add: frame_mask_def getitem_mask_map)

lemma sorted_dates_filter:
  "sorted (map date rs) \<Longrightarrow> sorted (map date (filter P rs))"
  by (induction rs) auto

lemma filter_on_timestamps:
  "\<exists>v. filtered_data df (Pd_timestamp a, Pd_timestamp b) = Inr v
     \<and> rows v = filter (\<lambda>r. a \<le> date r \<and> date r \<le> b) (rows df)
     \<and> length (rows v) =
         card {i. i < length (rows df) \<and> a \<le> date (rows df ! i) \<and> date (rows df ! i) \<le> b}
     \<and> (sorted (map date (rows df)) \<longrightarrow> sorted (map date (rows v)))"
proof -
  let ?P = "\<lambda>r. a \<le> date r \<and> date r \<le> b"
  let ?v = "frame_mask df (map ?P (rows df))"
  have r: "rows ?v = filter ?P (rows df)"
    by (rule rows_frame_mask_map)
  have c: "length (filter ?P (rows df)) = card {i. i < length (rows df) \<and> ?P (rows df ! i)}"
    by (rule length_filter_conv_card)
  have s: "sorted (map date (rows df)) \<longrightarrow> sorted (map date (filter ?P (rows df)))"
    by (simp add: sorted_dates_filter)
  from c s show ?thesis
    unfolding filtered_data_timestamps r [symmetric]
    by (intro exI [of _ ?v]) simp
qed

lemma mask_of_filtered: "map P (filter P xs) = replicate (length (filter P xs)) True"
  by (induction xs) auto

lemma count_true_mask: "length (filter id (map P xs)) = length (filter P xs)"
  by (induction xs) auto

lemma frame_mask_twice:
  "frame_mask (frame_mask df (map P (rows df))) (map P (rows (frame_mask df (map P (rows df)))))
     = frame_mask df (map P (rows df))"
proof -
  let ?m1 = "map P (rows df)"
  let ?k = "length (filter P (rows df))"
  let ?m2 = "map P (filter P (rows df))"
  have m2: "?m2 = replicate ?k True"
    by (rule mask_of_filtered)
  have rws: "getitem_mask (filter P (rows df)) ?m2 = filter P (rows df)"
    by (simp add: getitem_mask_map)
  have col: "getitem_mask (getitem_mask c ?m1) ?m2 = getitem_mask c ?m1" for c :: "real option list"
  proof -
    have "length (getitem_mask c ?m1) \<le> length (filter id ?m1)"
      by (rule length_getitem_mask)
    then have "length (getitem_mask c ?m1) \<le> ?k"
      by (simp only: count_true_mask)
    then show ?thesis
      unfolding m2 by (rule getitem_mask_all_True)
  qed
  have opt: "map_option (\<lambda>c. getitem_mask c ?m2) (map_option (\<lambda>c. getitem_mask c ?m1) (ma df))
      = map_option (\<lambda>c. getitem_mask c ?m1) (ma df)"
    by (cases "ma df") (simp_all add: col)
  show ?thesis
    by (simp add: frame_mask_def getitem_mask_map rws opt del: map_map)
qed

lemma filter_twice_on_timestamps:
  assumes "filtered_data df (Pd_timestamp a, Pd_timestamp b) = Inr v"
  shows "filtered_data v (Pd_timestamp a, Pd_timestamp b) = Inr v"
proof -
  from assms have v: "v = frame_mask df (map (\<lambda>r. a \<le> date r \<and> date r \<le> b) (rows df))"
    by (simp add: filtered_data_timestamps)
  show ?thesis
    unfolding filtered_data_timestamps v by (simp only: frame_mask_twice)
qed

lemma example_input_range: "input_date_range example_session = (Py_date 19358, Py_date 19360)"
  by (simp add: input_date_range_def example_session_def)

text \<open>
  C1. The claim fails on the code. In the example session the page delivers the range
  2023-01-01 to 2023-01-03 as two \<open>datetime.date\<close> values, on which the filter raises
  TypeError instead of returning the three rows of the interval. As the module is
  written, the raw data grid, which shows the filter's rows, raises NameError before
  the filter is called; with the name \<open>reactive\<close> bound (here supplied among the
  built-in names) it raises the filter's TypeError, and the calc holds no frame.
\<close>

theorem filtered_data_raises_TypeError:
  "input_date_range example_session = (Py_date 19358, Py_date 19360)
   \<and> filtered_data example_df (Py_date 19358, Py_date 19360) = Inl TypeError
   \<and> session_output [''len'', ''print'', ''range''] example_df Raw_data example_session
       = (Inl (NameError ''reactive''), example_session)
   \<and> session_output [''reactive''] example_df Raw_data example_session
       = (Inl TypeError, example_session)"
proof -
  have c: "cached example_session = None"
    by (simp add: example_session_def)
  have u: "''reactive'' \<notin> set [''len'', ''print'', ''range'']"
    by simp
  have b: "''reactive'' \<in> set [''reactive'']"
    by simp
  from example_input_range filtered_data_py_date [of example_df 19358 "Py_date 19360"]
    session_output_unbound [OF u, of example_df Raw_data example_session]
    session_output_bound [OF b c, of example_df Raw_data]
  show ?thesis by simp
qed

lemma example_timestamps:
  "filtered_data example_df (Pd_timestamp 19359, Pd_timestamp 19360)
     = Inr \<lparr>rows = tl example_rows, ma = None\<rparr>"
  by (simp add: filtered_data_timestamps frame_mask_def example_df_def example_rows_def)

text \<open>
  C7. The claim fails on the code, by the defect of C1. On the range 2023-01-02 to
  2023-01-03 as the page delivers it, the first application of the filter raises
  TypeError: it returns no rows to filter again. Only with two Timestamps does the
  first application return a frame (the last two rows of the example), and filtering
  that frame with the same range returns it unchanged.
\<close>

theorem filter_twice_raises_TypeError:
  "filtered_data example_df (input_date_range (example_session\<lparr>date_range := (19359, 19360)\<rparr>))
       = Inl TypeError
   \<and> filtered_data example_df (Pd_timestamp 19359, Pd_timestamp 19360)
       = Inr \<lparr>rows = tl example_rows, ma = None\<rparr>
   \<and> filtered_data \<lparr>rows = tl example_rows, ma = None\<rparr> (Pd_timestamp 19359, Pd_timestamp 19360)
       = Inr \<lparr>rows = tl example_rows, ma = None\<rparr>"
  using filtered_data_input [of example_df "example_session\<lparr>date_range := (19359, 19360)\<rparr>"]
    example_timestamps filter_twice_on_timestamps [OF example_timestamps]
  by simp

subsection \<open>The value boxes before the start of the table\<close>

lemma total_sales_empty: "rows data = [] \<Longrightarrow> total_sales data = Inl IndexError"
  by (simp add: total_sales_def iloc_def)

lemma avg_users_empty: "rows data = [] \<Longrightarrow> avg_users data = Inr ''nan''"
  by (simp add: avg_users_def series_mean_def format_0f_def)

lemma conv_rate_empty: "rows data = [] \<Longrightarrow> conv_rate data = Inr ''nan%''"
  by (simp add: conv_rate_def series_mean_def format_2pct_def)

text \<open>
  C2. The claim fails on the code. With the range 2022-01-01 to 2022-01-02, which
  lies before every date of the table, each of the three value boxes raises: as the
  module is written NameError, at the first statement of \<open>server\<close>; with the name
  \<open>reactive\<close> bound (here supplied among the built-in names) the filter's TypeError.
  No value box degrades to a text. On a frame without rows, which the filter never
  delivers, the body of \<open>total_sales\<close> raises IndexError at \<open>.iloc[-1]\<close>, while the
  bodies of \<open>avg_users\<close> and \<open>conv_rate\<close> return \<open>nan\<close> and \<open>nan%\<close>.
\<close>

theorem value_boxes_raise_before_table:
  "session_output [''len'', ''print'', ''range''] example_df Total_sales
       (example_session\<lparr>date_range := (days_from_civil 2022 1 1, days_from_civil 2022 1 2)\<rparr>)
     = (Inl (NameError ''reactive''),
        example_session\<lparr>date_range := (days_from_civil 2022 1 1, days_from_civil 2022 1 2)\<rparr>)
   \<and> session_output [''len'', ''print'', ''range''] example_df Avg_users
       (example_session\<lparr>date_range := (days_from_civil 2022 1 1, days_from_civil 2022 1 2)\<rparr>)
     = (Inl (NameError ''reactive''),
        example_session\<lparr>date_range := (days_from_civil 2022 1 1, days_from_civil 2022 1 2)\<rparr>)
   \<and> session_output [''len'', ''print'', ''range''] example_df Conv_rate
       (example_session\<lparr>date_range := (days_from_civil 2022 1 1, days_from_civil 2022 1 2)\<rparr>)
     = (Inl (NameError ''reactive''),
        example_session\<lparr>date_range := (days_from_civil 2022 1 1, days_from_civil 2022 1 2)\<rparr>)
   \<and> session_output [''reactive''] example_df Total_sales
       (example_session\<lparr>date_range := (days_from_civil 2022 1 1, days_from_civil 2022 1 2)\<rparr>)
     = (Inl TypeError,
        example_session\<lparr>date_range := (days_from_civil 2022 1 1, days_from_civil 2022 1 2)\<rparr>)
   \<and> session_output [''reactive''] example_df Avg_users
       (example_session\<lparr>date_range := (days_from_civil 2022 1 1, days_from_civil 2022 1 2)\<rparr>)
     = (Inl TypeError,
        example_session\<lparr>date_range := (days_from_civil 2022 1 1, days_from_civil 2022 1 2)\<rparr>)
   \<and> session_output [''reactive''] example_df Conv_rate
       (example_session\<lparr>date_range := (days_from_civil 2022 1 1, days_from_civil 2022 1 2)\<rparr>)
     = (Inl TypeError,
        example_session\<lparr>date_range := (days_from_civil 2022 1 1, days_from_civil 2022 1 2)\<rparr>)
   \<and> total_sales \<lparr>rows = [], ma = None\<rparr> = Inl IndexError
   \<and> avg_users \<lparr>rows = [], ma = None\<rparr> = Inr ''nan''
   \<and> conv_rate \<lparr>rows = [], ma = None\<rparr> = Inr ''nan%''"
proof -
  let ?s = "example_session\<lparr>date_range := (days_from_civil 2022 1 1, days_from_civil 2022 1 2)\<rparr>"
  have c: "cached ?s = None"
    by (simp add: example_session_def)
  have u: "''reactive'' \<notin> set [''len'', ''print'', ''range'']"
    by simp
  have b: "''reactive'' \<in> set [''reactive'']"
    by simp
  have e: "rows \<lparr>rows = [], ma = None\<rparr> = []"
    by simp
  note un = session_output_unbound [OF u, of example_df _ ?s]
  note bo = session_output_bound [OF b c, of example_df]
  from un [of Total_sales] un [of Avg_users] un [of Conv_rate]
    bo [of Total_sales] bo [of Avg_users] bo [of Conv_rate]
    total_sales_empty [OF e] avg_users_empty [OF e] conv_rate_empty [OF e]
  show ?thesis by (intro conjI) assumption+
qed

subsection \<open>The server function\<close>

lemma reactive_unbound:
  "''reactive'' \<notin> set module_globals \<and> ''reactive'' \<notin> set server_params"
  by (simp add: module_globals_def server_params_def)

text \<open>
  C10. The module binds no name \<open>reactive\<close>, and neither do the parameters of
  \<open>server\<close>; unless it is a built-in name, the call of \<open>server\<close> raises NameError at
  its first statement, so that in every session no output is rendered and the session
  is left as it was.
\<close>

theorem server_raises_NameError:
  assumes "''reactive'' \<notin> set builtins"
  shows "''reactive'' \<notin> set module_globals
    \<and> ''reactive'' \<notin> set server_params
    \<and> server builtins = Inl (NameError ''reactive'')
    \<and> session_output builtins df out s = (Inl (NameError ''reactive''), s)"
proof -
  from assms reactive_unbound
  have "load_name server_params builtins ''reactive'' = Inl (NameError ''reactive'')"
    by (simp add: load_name_def)
  then have srv: "server builtins = Inl (NameError ''reactive'')"
    by (simp add: server_def)
  then have "session_output builtins df out s = (Inl (NameError ''reactive''), s)"
    by (simp add: session_output_def)
  with srv reactive_unbound show ?thesis by simp
qed

theorem server_raises_NameError_witness:
  "''reactive'' \<notin> set [''len'', ''print'', ''range'']
   \<and> server [''len'', ''print'', ''range''] = Inl (NameError ''reactive'')
   \<and> session_output [''len'', ''print'', ''range''] example_df Total_sales
        \<lparr>date_range = (19358, 19360), metric = ''sales'', window = 7, cached = None\<rparr>
      = (Inl (NameError ''reactive''),
         \<lparr>date_range = (19358, 19360), metric = ''sales'', window = 7, cached = None\<rparr>)"
proof -
  have h: "''reactive'' \<notin> set [''len'', ''print'', ''range'']"
    by simp
  from server_raises_NameError [OF h, of example_df Total_sales
      "\<lparr>date_range = (19358, 19360), metric = ''sales'', window = 7, cached = None\<rparr>"] h
  show ?thesis by blast
qed

subsection \<open>The moving average\<close>

lemma map_filter_Some: "List.map_filter (\<lambda>v. v) (map Some ys) = ys"
  by (induction ys) (simp_all add: List.map_filter_simps)

lemma window_values_Some:
  "window_values w (map Some ys) i = take (Suc i - (Suc i - w)) (drop (Suc i - w) ys)"
  by (simp add: window_values_def Let_def map_filter_Some take_map drop_map)

lemma length_rolling_mean: "length (rolling_mean w xs) = length xs"
  by (simp add: rolling_mean_def)

lemma rolling_mean_nth:
  assumes "i < length ys" and "1 \<le> w"
  shows "rolling_mean w (map Some ys) ! i =
    (if w \<le> Suc i then Some (sum_list (take w (drop (Suc i - w) ys)) / real w) else None)"
proof (cases "w \<le> Suc i")
  case True
  then have cnt: "Suc i - (Suc i - w) = w"
    by simp
  from assms True have len: "length (take w (drop (Suc i - w) ys)) = w"
    by (simp add: min_def; arith)
  from assms True show ?thesis
    by (simp add: rolling_mean_def window_values_Some Let_def cnt len; arith)
next
  case False
  then have st: "Suc i - w = 0" by simp
  from assms False have "length (take (Suc i - (Suc i - w)) (drop (Suc i - w) ys)) < w"
    by (simp add: st)
  with assms False show ?thesis
    by (simp add: rolling_mean_def window_values_Some Let_def)
qed

lemma sum_list_window:
  assumes "k + n \<le> length ys"
  shows "sum_list (take n (drop k ys)) = (\<Sum>j = k..<k + n. (ys ! j :: real))"
proof -
  from assms have len: "length (take n (drop k ys)) = n" by simp
  have "sum_list (take n (drop k ys)) = (\<Sum>j = 0..<n. take n (drop k ys) ! j)"
    using sum_list_sum_nth [of "take n (drop k ys)"] len by simp
  also have "\<dots> = (\<Sum>j = 0..<n. ys ! (j + k))"
    using assms by (intro sum.cong) (simp_all add: add.commute)
  also have "\<dots> = (\<Sum>j = 0 + k..<n + k. ys ! j)"
    by (rule sum.shift_bounds_nat_ivl [symmetric])
  finally show ?thesis by (simp add: add.commute)
qed

lemma metric_series_choice:
  assumes "m \<in> set metric_choices"
  shows "\<exists>col. metric_series data m = Inr (map Some col) \<and> length col = length (rows data)
     \<and> (m = ''sales'' \<longrightarrow> col = map sales (rows data))
     \<and> (m = ''users'' \<longrightarrow> col = map (\<lambda>r. real_of_int (users r)) (rows data))
     \<and> (m = ''conversion'' \<longrightarrow> col = map conversion (rows data))"
proof -
  from assms consider "m = ''sales''" | "m = ''users''" | "m = ''conversion''"
    by (auto simp: metric_choices_def)
  then show ?thesis
  proof cases
    case 1
    then show ?thesis
      by (intro exI [of _ "map sales (rows data)"]) (simp add: metric_series_def comp_def)
  next
    case 2
    then show ?thesis
      by (intro exI [of _ "map (\<lambda>r. real_of_int (users r)) (rows data)"])
        (simp add: metric_series_def comp_def)
  next
    case 3
    then show ?thesis
      by (intro exI [of _ "map conversion (rows data)"]) (simp add: metric_series_def comp_def)
  qed
qed

lemma rolling_mean_1: "rolling_mean (Suc 0) (map Some ys) = map Some ys"
proof (rule nth_equalityI)
  show "length (rolling_mean (Suc 0) (map Some ys)) = length (map Some ys)"
    by (simp add: length_rolling_mean)
next
  fix i
  assume "i < length (rolling_mean (Suc 0) (map Some ys))"
  then have i: "i < length ys"
    by (simp add: length_rolling_mean)
  then have "take (Suc 0) (drop i ys) = [ys ! i]"
    by (simp add: Cons_nth_drop_Suc [symmetric])
  with i show "rolling_mean (Suc 0) (map Some ys) ! i = map Some ys ! i"
    by (simp add: rolling_mean_nth)
qed

lemma metric_series_after_assignment:
  assumes "m \<in> set metric_choices"
  shows "metric_series (data\<lparr>ma := c\<rparr>) m = metric_series data m"
proof -
  from assms have "m = ''sales'' \<or> m = ''users'' \<or> m = ''conversion''"
    by (auto simp: metric_choices_def)
  then show ?thesis
    by (auto simp: metric_series_def)
qed

lemma metric_series_ma: "metric_series (data\<lparr>ma := Some c\<rparr>) ''ma'' = Inr c"
  by (simp add: metric_series_def)

lemma rows_after_assignment: "rows (data\<lparr>ma := c\<rparr>) = rows data"
  by simp

lemma trend_plot_series:
  assumes "m \<in> set metric_choices" and "metric_series data m = Inr col"
  shows "trend_plot data m w =
     (Inr \<lparr>daily_line = zip (map date (rows data)) col,
           ma_line = zip (map date (rows data)) (rolling_mean w col),
           ma_label = int_str (int w) @ ''-day MA'',
           fig_title = str_title m @ '' Over Time''\<rparr>,
      data\<lparr>ma := Some (rolling_mean w col)\<rparr>)"
proof -
  have a: "metric_series (data\<lparr>ma := Some (rolling_mean w col)\<rparr>) m = Inr col"
    using assms by (simp only: metric_series_after_assignment)
  have b: "metric_series (data\<lparr>ma := Some (rolling_mean w col)\<rparr>) ''ma'' = Inr (rolling_mean w col)"
    by (rule metric_series_ma)
  show ?thesis
    by (simp add: trend_plot_def Let_def assms(2) a b)
qed


text \<open>
  C3. For each of the three metrics and every window size \<open>w\<close> of at least 1 (the
  slider gives 1 to 30), the body of \<open>trend_plot\<close> succeeds. The raw line it draws
  is the column of the frame that the metric names (the sales, the users or the
  conversion of the rows), and the moving average it stores as column \<open>ma\<close> and
  draws has one entry for each row: the entry at position \<open>i\<close> is defined exactly
  when \<open>w - 1 \<le> i\<close>, and is then the sum of that column at the positions
  \<open>i + 1 - w\<close> to \<open>i\<close> divided by \<open>w\<close>; when the frame has fewer than \<open>w\<close> rows,
  every entry is undefined.
\<close>

theorem moving_average_defined_iff:
  assumes "m \<in> set metric_choices" and "1 \<le> w"
  shows "\<exists>fig col series.
      trend_plot data m w = (Inr fig, data\<lparr>ma := Some series\<rparr>)
    \<and> (m = ''sales'' \<longrightarrow> col = map sales (rows data))
    \<and> (m = ''users'' \<longrightarrow> col = map (\<lambda>r. real_of_int (users r)) (rows data))
    \<and> (m = ''conversion'' \<longrightarrow> col = map conversion (rows data))
    \<and> metric_series data m = Inr (map Some col)
    \<and> daily_line fig = zip (map date (rows data)) (map Some col)
    \<and> ma_line fig = zip (map date (rows data)) series
    \<and> map snd (ma_line fig) = series
    \<and> length col = length (rows data) \<and> length series = length (rows data)
    \<and> (\<forall>i < length (rows data). (series ! i \<noteq> None) = (w - 1 \<le> i))
    \<and> (\<forall>i < length (rows data). w - 1 \<le> i \<longrightarrow>
          series ! i = Some ((\<Sum>j = i + 1 - w..i. col ! j) / real w))
    \<and> (length (rows data) < w \<longrightarrow> series = replicate (length (rows data)) None)"
proof -
  from metric_series_choice [OF assms(1), of data]
  obtain col where col: "metric_series data m = Inr (map Some col)"
    and len: "length col = length (rows data)"
    and t1: "m = ''sales'' \<longrightarrow> col = map sales (rows data)"
    and t2: "m = ''users'' \<longrightarrow> col = map (\<lambda>r. real_of_int (users r)) (rows data)"
    and t3: "m = ''conversion'' \<longrightarrow> col = map conversion (rows data)"
    by (elim exE conjE) (rule that)
  let ?series = "rolling_mean w (map Some col)"
  let ?fig = "\<lparr>daily_line = zip (map date (rows data)) (map Some col),
           ma_line = zip (map date (rows data)) ?series,
           ma_label = int_str (int w) @ ''-day MA'',
           fig_title = str_title m @ '' Over Time''\<rparr>"
  have tp: "trend_plot data m w = (Inr ?fig, data\<lparr>ma := Some ?series\<rparr>)"
    by (rule trend_plot_series [OF assms(1) col])
  have dl: "daily_line ?fig = zip (map date (rows data)) (map Some col)"
    by simp
  have ml: "ma_line ?fig = zip (map date (rows data)) ?series"
    by simp
  have ls: "length ?series = length (rows data)"
    by (simp add: length_rolling_mean len)
  have line: "map snd (ma_line ?fig) = ?series"
    by (simp add: ls)
  have nth: "?series ! i =
      (if w \<le> Suc i then Some (sum_list (take w (drop (Suc i - w) col)) / real w) else None)"
    if "i < length (rows data)" for i
    using that assms(2) len by (simp add: rolling_mean_nth)
  have def_iff: "\<forall>i < length (rows data). (?series ! i \<noteq> None) = (w - 1 \<le> i)"
  proof (intro allI impI)
    fix i assume i: "i < length (rows data)"
    from assms(2) have "(w \<le> Suc i) = (w - 1 \<le> i)" by arith
    with nth [OF i] show "(?series ! i \<noteq> None) = (w - 1 \<le> i)" by simp
  qed
  have val: "\<forall>i < length (rows data). w - 1 \<le> i \<longrightarrow>
      ?series ! i = Some ((\<Sum>j = i + 1 - w..i. col ! j) / real w)"
  proof (intro allI impI)
    fix i assume i: "i < length (rows data)" and wi: "w - 1 \<le> i"
    from assms(2) wi have le: "w \<le> Suc i" by arith
    with i len have "Suc i - w + w \<le> length col" by simp
    then have "sum_list (take w (drop (Suc i - w) col)) = (\<Sum>j = Suc i - w..<Suc i - w + w. col ! j)"
      by (rule sum_list_window)
    also from le have "{Suc i - w..<Suc i - w + w} = {i + 1 - w..i}"
      by auto
    finally show "?series ! i = Some ((\<Sum>j = i + 1 - w..i. col ! j) / real w)"
      using nth [OF i] le by simp
  qed
  have short: "length (rows data) < w \<longrightarrow> ?series = replicate (length (rows data)) None"
  proof
    assume lt: "length (rows data) < w"
    show "?series = replicate (length (rows data)) None"
    proof (rule nth_equalityI)
      show "length ?series = length (replicate (length (rows data)) (None :: real option))"
        by (simp add: ls)
    next
      fix i assume "i < length ?series"
      with ls have i: "i < length (rows data)" by simp
      with lt have "\<not> w \<le> Suc i" by simp
      with nth [OF i] i show "?series ! i = replicate (length (rows data)) None ! i"
        by simp
    qed
  qed
  from tp t1 t2 t3 col dl ml line len ls def_iff val short show ?thesis
    by (intro exI [of _ ?fig] exI [of _ col] exI [of _ ?series] conjI) assumption+
qed

text \<open>
  C6. With window size 1 the moving average is the metric column itself, position for
  position, for each of the three metrics: the column stored as \<open>ma\<close> holds the
  sales, the users or the conversion of the rows, as the metric says, and the two
  drawn lines coincide.
\<close>

theorem moving_average_window_1:
  assumes "m \<in> set metric_choices"
  shows "\<exists>fig col.
      trend_plot data m 1 = (Inr fig, data\<lparr>ma := Some (map Some col)\<rparr>)
    \<and> (m = ''sales'' \<longrightarrow> col = map sales (rows data))
    \<and> (m = ''users'' \<longrightarrow> col = map (\<lambda>r. real_of_int (users r)) (rows data))
    \<and> (m = ''conversion'' \<longrightarrow> col = map conversion (rows data))
    \<and> metric_series data m = Inr (map Some col)
    \<and> length col = length (rows data)
    \<and> map snd (ma_line fig) = map Some col
    \<and> map snd (daily_line fig) = map Some col
    \<and> ma_line fig = daily_line fig"
proof -
  from metric_series_choice [OF assms, of data]
  obtain col where col: "metric_series data m = Inr (map Some col)"
    and len: "length col = length (rows data)"
    and t1: "m = ''sales'' \<longrightarrow> col = map sales (rows data)"
    and t2: "m = ''users'' \<longrightarrow> col = map (\<lambda>r. real_of_int (users r)) (rows data)"
    and t3: "m = ''conversion'' \<longrightarrow> col = map conversion (rows data)"
    by (elim exE conjE) (rule that)
  let ?fig = "\<lparr>daily_line = zip (map date (rows data)) (map Some col),
           ma_line = zip (map date (rows data)) (map Some col),
           ma_label = int_str (int 1) @ ''-day MA'',
           fig_title = str_title m @ '' Over Time''\<rparr>"
  have "trend_plot data m (Suc 0) = (Inr ?fig, data\<lparr>ma := Some (map Some col)\<rparr>)"
    using trend_plot_series [OF assms col, of "Suc 0"] by (simp only: rolling_mean_1 One_nat_def)
  then have tp: "trend_plot data m 1 = (Inr ?fig, data\<lparr>ma := Some (map Some col)\<rparr>)"
    by simp
  have l1: "map snd (ma_line ?fig) = map Some col"
    by (simp add: len)
  have l2: "map snd (daily_line ?fig) = map Some col"
    by (simp add: len)
  have l3: "ma_line ?fig = daily_line ?fig"
    by simp
  from tp t1 t2 t3 col len l1 l2 l3 show ?thesis
    by (intro exI [of _ ?fig] exI [of _ col] conjI) assumption+
qed

lemma example_rolling:
  "rolling_mean 2 (map (\<lambda>r. Some (real_of_int (users r))) (rows example_df))
     = [None, Some (1003 / 2), Some (1001 / 2)]"
  by code_simp

lemma example_trend_plot:
  "snd (trend_plot example_df ''users'' 2)
     = example_df\<lparr>ma := Some [None, Some (1003 / 2), Some (1001 / 2)]\<rparr>"
proof -
  have m: "''users'' \<in> set metric_choices"
    by (simp add: metric_choices_def)
  have ms: "metric_series example_df ''users'' =
      Inr (map (\<lambda>r. Some (real_of_int (users r))) (rows example_df))"
    by (simp add: metric_series_def)
  show ?thesis
    unfolding trend_plot_series [OF m ms] example_rolling by simp
qed

theorem moving_average_defined_iff_witness:
  "''users'' \<in> set metric_choices \<and> (1::nat) \<le> 2
   \<and> snd (trend_plot example_df ''users'' 2)
       = example_df\<lparr>ma := Some [None, Some (1003 / 2), Some (1001 / 2)]\<rparr>
   \<and> (\<exists>fig col series.
      trend_plot example_df ''users'' 2 = (Inr fig, example_df\<lparr>ma := Some series\<rparr>)
    \<and> col = map (\<lambda>r. real_of_int (users r)) (rows example_df)
    \<and> daily_line fig = zip (map date (rows example_df)) (map Some col)
    \<and> ma_line fig = zip (map date (rows example_df)) series
    \<and> length series = length (rows example_df)
    \<and> (\<forall>i < length (rows example_df). (series ! i \<noteq> None) = (2 - 1 \<le> i))
    \<and> (\<forall>i < length (rows example_df). 2 - 1 \<le> i \<longrightarrow>
          series ! i = Some ((\<Sum>j = i + 1 - 2..i. col ! j) / real 2))
    \<and> (length (rows example_df) < 2 \<longrightarrow> series = replicate (length (rows example_df)) None))"
proof -
  have h1: "''users'' \<in> set metric_choices"
    by (simp add: metric_choices_def)
  have h2: "(1::nat) \<le> 2"
    by simp
  from moving_average_defined_iff [OF h1 h2, of example_df]
  obtain fig col series where
    a: "trend_plot example_df ''users'' 2 = (Inr fig, example_df\<lparr>ma := Some series\<rparr>)"
    and b: "''users'' = ''users'' \<longrightarrow> col = map (\<lambda>r. real_of_int (users r)) (rows example_df)"
    and c: "daily_line fig = zip (map date (rows example_df)) (map Some col)"
    and d: "ma_line fig = zip (map date (rows example_df)) series"
    and e: "length series = length (rows example_df)"
    and f: "\<forall>i < length (rows example_df). (series ! i \<noteq> None) = (2 - 1 \<le> i)"
    and g: "\<forall>i < length (rows example_df). 2 - 1 \<le> i \<longrightarrow>
          series ! i = Some ((\<Sum>j = i + 1 - 2..i. col ! j) / real 2)"
    and h: "length (rows example_df) < 2 \<longrightarrow> series = replicate (length (rows example_df)) None"
    by (elim exE conjE) (rule that)
  from b have b': "col = map (\<lambda>r. real_of_int (users r)) (rows example_df)"
    by simp
  from a b' c d e f g h
  have "\<exists>fig col series.
      trend_plot example_df ''users'' 2 = (Inr fig, example_df\<lparr>ma := Some series\<rparr>)
    \<and> col = map (\<lambda>r. real_of_int (users r)) (rows example_df)
    \<and> daily_line fig = zip (map date (rows example_df)) (map Some col)
    \<and> ma_line fig = zip (map date (rows example_df)) series
    \<and> length series = length (rows example_df)
    \<and> (\<forall>i < length (rows example_df). (series ! i \<noteq> None) = (2 - 1 \<le> i))
    \<and> (\<forall>i < length (rows example_df). 2 - 1 \<le> i \<longrightarrow>
          series ! i = Some ((\<Sum>j = i + 1 - 2..i. col ! j) / real 2))
    \<and> (length (rows example_df) < 2 \<longrightarrow> series = replicate (length (rows example_df)) None)"
    by (intro exI [of _ fig] exI [of _ col] exI [of _ series] conjI) assumption+
  with h1 h2 example_trend_plot show ?thesis
    by (intro conjI) assumption+
qed

theorem moving_average_window_1_witness:
  "''sales'' \<in> set metric_choices
   \<and> (\<exists>fig. trend_plot example_df ''sales'' 1 =
          (Inr fig, example_df\<lparr>ma := Some (map Some (map sales (rows example_df)))\<rparr>)
        \<and> map snd (ma_line fig) = map Some (map sales (rows example_df))
        \<and> map snd (daily_line fig) = map Some (map sales (rows example_df))
        \<and> ma_line fig = daily_line fig)
   \<and> map sales (rows example_df) = [1000, 4691 / 2, 2469135 / 2]"
proof -
  have h: "''sales'' \<in> set metric_choices"
    by (simp add: metric_choices_def)
  from moving_average_window_1 [OF h, of example_df]
  obtain fig col where
    a: "trend_plot example_df ''sales'' 1 = (Inr fig, example_df\<lparr>ma := Some (map Some col)\<rparr>)"
    and b: "''sales'' = ''sales'' \<longrightarrow> col = map sales (rows example_df)"
    and c: "map snd (ma_line fig) = map Some col"
    and d: "map snd (daily_line fig) = map Some col"
    and e: "ma_line fig = daily_line fig"
    by (elim exE conjE) (rule that)
  from b have b': "col = map sales (rows example_df)"
    by simp
  from a c d e
  have "\<exists>fig. trend_plot example_df ''sales'' 1 =
          (Inr fig, example_df\<lparr>ma := Some (map Some (map sales (rows example_df)))\<rparr>)
        \<and> map snd (ma_line fig) = map Some (map sales (rows example_df))
        \<and> map snd (daily_line fig) = map Some (map sales (rows example_df))
        \<and> ma_line fig = daily_line fig"
    unfolding b' by (intro exI [of _ fig] conjI) assumption+
  moreover have "map sales (rows example_df) = [1000, 4691 / 2, 2469135 / 2]"
    by (simp add: example_df_def example_rows_def)
  ultimately show ?thesis
    using h by (intro conjI) assumption+
qed

subsection \<open>Who changes the frame an output receives\<close>






subsection \<open>The generated table\<close>

lemma length_cumsum_from: "length (cumsum_from a xs) = length xs"
  by (induction xs arbitrary: a) simp_all

lemma cumsum_from_nth:
  "i < length xs \<Longrightarrow> cumsum_from a xs ! i = a + sum_list (take (Suc i) xs)"
proof (induction xs arbitrary: a i)
  case Nil
  then show ?case by simp
next
  case (Cons x xs)
  show ?case
  proof (cases i)
    case 0
    then show ?thesis by simp
  next
    case (Suc k)
    with Cons.prems have "k < length xs" by simp
    from Cons.IH [OF this, of "a + x"] Suc show ?thesis by simp
  qed
qed

lemma np_cumsum_nth:
  assumes "i < length xs"
  shows "np_cumsum xs ! i = (\<Sum>j\<le>i. xs ! j)"
proof -
  from assms have "0 + Suc i \<le> length xs" by simp
  from sum_list_window [OF this]
  have "sum_list (take (Suc i) xs) = (\<Sum>j = 0..<Suc i. xs ! j)" by simp
  also have "{0..<Suc i} = {..i}" by auto
  finally show ?thesis
    using assms by (simp add: np_cumsum_def cumsum_from_nth)
qed

lemma pd_date_range_props:
  "length (pd_date_range d n) = n"
  "i < n \<Longrightarrow> pd_date_range d n ! i = d + int i"
  "sorted_wrt (<) (pd_date_range d n)"
  by (simp_all add: pd_date_range_def sorted_wrt_map sorted_wrt_upt strict_sorted_iff del: upt_Suc)

lemma start_date: "days_from_civil 2023 1 1 = 19358"
  by (simp add: days_from_civil_def)

lemma last_date: "days_from_civil 2023 1 1 + 99 = days_from_civil 2023 4 10"
  by (simp add: days_from_civil_def)

lemma pd_DataFrame_rows:
  assumes "length ss = length ds" and "length us = length ds" and "length cs = length ds"
  shows "\<exists>df. pd_DataFrame ds ss us cs = Inr df \<and> ma df = None \<and> length (rows df) = length ds
     \<and> map date (rows df) = ds
     \<and> (\<forall>i < length ds. rows df ! i =
           \<lparr>label = i, date = ds ! i, sales = ss ! i, users = int (us ! i), conversion = cs ! i\<rparr>)"
  using assms by (simp add: pd_DataFrame_def comp_def map_nth del: upt_Suc)

lemma create_sample_data_seeded: "create_sample_data np g' = create_sample_data np g"
  by (simp add: create_sample_data_def)

text \<open>
  C8. Let the library return \<open>n\<close> samples from each draw of \<open>n\<close>, the uniform ones
  between the bounds given. Then \<open>create_sample_data\<close> returns a table of exactly 100
  rows, labelled 0 to 99, whose dates are 2023-01-01 and the 99 days after it (strictly
  ascending), whose sales are the running sums of the 100 normal(1000, 200) samples
  drawn first from the generator seeded with 123, whose users are the 100
  Poisson(500) samples drawn next, and whose conversions are the 100 uniform samples
  drawn last, each between 0.01 and 0.05. The result does not depend on the generator
  state before the call: every run returns the same table.
\<close>

theorem create_sample_data_contract:
  assumes "\<forall>mu sd n g. length (fst (rng_normal np mu sd n g)) = n"
    and "\<forall>lam n g. length (fst (rng_poisson np lam n g)) = n"
    and "\<forall>lo hi n g. length (fst (rng_uniform np lo hi n g)) = n"
    and "\<forall>lo hi n g. lo \<le> hi \<longrightarrow> (\<forall>x \<in> set (fst (rng_uniform np lo hi n g)). lo \<le> x \<and> x \<le> hi)"
  shows "\<exists>df zs g1 ps g2 cs g3.
       rng_normal np 1000 200 100 (rng_seed np 123) = (zs, g1)
     \<and> rng_poisson np 500 100 g1 = (ps, g2)
     \<and> rng_uniform np (1 / 100) (5 / 100) 100 g2 = (cs, g3)
     \<and> create_sample_data np g = (Inr df, g3)
     \<and> length (rows df) = 100 \<and> ma df = None
     \<and> (\<forall>i < 100. label (rows df ! i) = i
            \<and> date (rows df ! i) = days_from_civil 2023 1 1 + int i
            \<and> sales (rows df ! i) = (\<Sum>j\<le>i. zs ! j)
            \<and> users (rows df ! i) = int (ps ! i)
            \<and> conversion (rows df ! i) = cs ! i
            \<and> 1 / 100 \<le> conversion (rows df ! i) \<and> conversion (rows df ! i) \<le> 5 / 100)
     \<and> sorted_wrt (<) (map date (rows df))
     \<and> (\<forall>g'. create_sample_data np g' = create_sample_data np g)"
proof -
  obtain zs g1 where n: "rng_normal np 1000 200 100 (rng_seed np 123) = (zs, g1)"
    by (cases "rng_normal np 1000 200 100 (rng_seed np 123)")
  obtain ps g2 where p: "rng_poisson np 500 100 g1 = (ps, g2)"
    by (cases "rng_poisson np 500 100 g1")
  obtain cs g3 where u: "rng_uniform np (1 / 100) (5 / 100) 100 g2 = (cs, g3)"
    by (cases "rng_uniform np (1 / 100) (5 / 100) 100 g2")
  let ?ds = "pd_date_range (days_from_civil 2023 1 1) 100"
  from assms(1) [rule_format, of 1000 200 100 "rng_seed np 123"] n
  have lz: "length zs = 100" by simp
  from assms(2) [rule_format, of 500 100 g1] p
  have lp: "length ps = 100" by simp
  from assms(3) [rule_format, of "1 / 100" "5 / 100" 100 g2] u
  have lc: "length cs = 100" by simp
  from assms(4) [rule_format, of "1 / 100" "5 / 100" _ 100 g2] u
  have rng: "1 / 100 \<le> x \<and> x \<le> 5 / 100" if "x \<in> set cs" for x
    using that by simp
  have ld: "length ?ds = 100"
    by (simp add: pd_date_range_props)
  from pd_DataFrame_rows [of "np_cumsum zs" ?ds ps cs] lz lp lc ld
  obtain df where df: "pd_DataFrame ?ds (np_cumsum zs) ps cs = Inr df"
    and nm: "ma df = None" and len: "length (rows df) = 100"
    and dates: "map date (rows df) = ?ds"
    and row: "\<And>i. i < 100 \<Longrightarrow> rows df ! i =
      \<lparr>label = i, date = ?ds ! i, sales = np_cumsum zs ! i, users = int (ps ! i), conversion = cs ! i\<rparr>"
    by (auto simp: np_cumsum_def length_cumsum_from)
  have run: "create_sample_data np g = (Inr df, g3)"
    using n p u df by (simp add: create_sample_data_def)
  have each: "\<forall>i < 100. label (rows df ! i) = i
            \<and> date (rows df ! i) = days_from_civil 2023 1 1 + int i
            \<and> sales (rows df ! i) = (\<Sum>j\<le>i. zs ! j)
            \<and> users (rows df ! i) = int (ps ! i)
            \<and> conversion (rows df ! i) = cs ! i
            \<and> 1 / 100 \<le> conversion (rows df ! i) \<and> conversion (rows df ! i) \<le> 5 / 100"
  proof (intro allI impI)
    fix i :: nat assume i: "i < 100"
    with lc have "cs ! i \<in> set cs" by simp
    from rng [OF this] row [OF i] i lz
    show "label (rows df ! i) = i
            \<and> date (rows df ! i) = days_from_civil 2023 1 1 + int i
            \<and> sales (rows df ! i) = (\<Sum>j\<le>i. zs ! j)
            \<and> users (rows df ! i) = int (ps ! i)
            \<and> conversion (rows df ! i) = cs ! i
            \<and> 1 / 100 \<le> conversion (rows df ! i) \<and> conversion (rows df ! i) \<le> 5 / 100"
      by (simp add: pd_date_range_props np_cumsum_nth)
  qed
  have srt: "sorted_wrt (<) (map date (rows df))"
    unfolding dates by (rule pd_date_range_props)
  have det: "\<forall>g'. create_sample_data np g' = create_sample_data np g"
    by (simp add: create_sample_data_def)
  from n p u run len nm each srt det show ?thesis
    by blast
qed

theorem create_sample_data_contract_witness:
  "(\<forall>mu sd n g. length (fst (rng_normal example_np mu sd n g)) = n)
   \<and> (\<forall>lam n g. length (fst (rng_poisson example_np lam n g)) = n)
   \<and> (\<forall>lo hi n g. length (fst (rng_uniform example_np lo hi n g)) = n)
   \<and> (\<forall>n g. list_all (\<lambda>x. 1 / 100 \<le> x \<and> x \<le> 5 / 100)
                (fst (rng_uniform example_np (1 / 100) (5 / 100) n g)))
   \<and> (\<exists>df g3. create_sample_data example_np 0 = (Inr df, g3)
         \<and> length (rows df) = 100
         \<and> date (rows df ! 0) = days_from_civil 2023 1 1
         \<and> date (rows df ! 99) = days_from_civil 2023 4 10
         \<and> 1 / 100 \<le> conversion (rows df ! 99)
         \<and> conversion (rows df ! 99) \<le> 5 / 100
         \<and> create_sample_data example_np 7 = create_sample_data example_np 0)"
proof -
  have h1: "\<forall>mu sd n g. length (fst (rng_normal example_np mu sd n g)) = n"
    by (simp add: example_np_def)
  have h2: "\<forall>lam n g. length (fst (rng_poisson example_np lam n g)) = n"
    by (simp add: example_np_def)
  have h3: "\<forall>lo hi n g. length (fst (rng_uniform example_np lo hi n g)) = n"
    by (simp add: example_np_def)
  have h4: "\<forall>lo hi n g. lo \<le> hi \<longrightarrow>
      (\<forall>x \<in> set (fst (rng_uniform example_np lo hi n g)). lo \<le> x \<and> x \<le> hi)"
    by (auto simp: example_np_def)
  have h5: "\<forall>n g. list_all (\<lambda>x. 1 / 100 \<le> x \<and> x \<le> 5 / 100)
                (fst (rng_uniform example_np (1 / 100) (5 / 100) n g))"
  proof (intro allI)
    fix n g
    have "(1 / 100 :: real) \<le> 5 / 100" by simp
    with h4 [rule_format, of "1 / 100" "5 / 100" _ n g]
    show "list_all (\<lambda>x. 1 / 100 \<le> x \<and> x \<le> 5 / 100)
                (fst (rng_uniform example_np (1 / 100) (5 / 100) n g))"
      unfolding list_all_iff by blast
  qed
  from create_sample_data_contract [OF h1 h2 h3 h4, of 0]
  obtain df zs g1 ps g2 cs g3 where run: "create_sample_data example_np 0 = (Inr df, g3)"
    and len: "length (rows df) = 100"
    and each: "\<forall>i < 100. label (rows df ! i) = i
            \<and> date (rows df ! i) = days_from_civil 2023 1 1 + int i
            \<and> sales (rows df ! i) = (\<Sum>j\<le>i. zs ! j)
            \<and> users (rows df ! i) = int (ps ! i)
            \<and> conversion (rows df ! i) = cs ! i
            \<and> 1 / 100 \<le> conversion (rows df ! i) \<and> conversion (rows df ! i) \<le> 5 / 100"
    and det: "\<forall>g'. create_sample_data example_np g' = create_sample_data example_np 0"
    by (elim exE conjE) (rule that)
  have i0: "(0::nat) < 100" and i99: "(99::nat) < 100"
    by simp_all
  from each [rule_format, OF i0] have d0: "date (rows df ! 0) = days_from_civil 2023 1 1"
    by simp
  from each [rule_format, OF i99] have "date (rows df ! 99) = days_from_civil 2023 1 1 + 99"
    by simp
  then have d99: "date (rows df ! 99) = days_from_civil 2023 4 10"
    by (simp only: last_date)
  from each [rule_format, OF i99]
  have c1: "1 / 100 \<le> conversion (rows df ! 99)" and c2: "conversion (rows df ! 99) \<le> 5 / 100"
    by blast+
  from det have d7: "create_sample_data example_np 7 = create_sample_data example_np 0"
    by blast
  from run len d0 d99 c1 c2 d7
  have "\<exists>df g3. create_sample_data example_np 0 = (Inr df, g3)
         \<and> length (rows df) = 100
         \<and> date (rows df ! 0) = days_from_civil 2023 1 1
         \<and> date (rows df ! 99) = days_from_civil 2023 4 10
         \<and> 1 / 100 \<le> conversion (rows df ! 99)
         \<and> conversion (rows df ! 99) \<le> 5 / 100
         \<and> create_sample_data example_np 7 = create_sample_data example_np 0"
    by (intro exI [of _ df] exI [of _ g3] conjI) assumption+
  with h1 h2 h3 h5 show ?thesis
    by (intro conjI) assumption+
qed

subsection \<open>The texts of the value boxes\<close>

lemma digit_char:
  assumes "d < 10"
  shows "is_digit (''0123456789'' ! d) \<and> digit_val (''0123456789'' ! d) = d"
proof -
  from assms have "d \<in> {0, 1, 2, 3, 4, 5, 6, 7, 8, 9}" by auto
  then show ?thesis
    by (auto simp: is_digit_def digit_val_def)
qed

lemma read_nat_snoc: "read_nat (s @ [c]) = 10 * read_nat s + digit_val c"
  by (simp add: read_nat_def)

lemma digits_props:
  "list_all is_digit (digits n) \<and> read_nat (digits n) = n \<and> digits n \<noteq> []"
proof (induction n rule: digits.induct)
  case (1 n)
  show ?case
  proof (cases "n < 10")
    case True
    with digit_char [of n] show ?thesis
      by (simp add: digits.simps [of n] read_nat_def)
  next
    case False
    with "1.IH" digit_char [of "n mod 10"] show ?thesis
      by (simp add: digits.simps [of n] read_nat_snoc)
  qed
qed

lemma no_comma_digit: "is_digit c \<Longrightarrow> c \<noteq> CHR '',''"
  by (auto simp: is_digit_def)

lemma filter_group_rev:
  "list_all is_digit ds \<Longrightarrow> filter (\<lambda>c. c \<noteq> CHR '','') (group_rev ds) = ds"
  by (induction ds rule: group_rev.induct) (auto simp: no_comma_digit)

lemma filter_thousands:
  assumes "list_all is_digit ds"
  shows "filter (\<lambda>c. c \<noteq> CHR '','') (thousands ds) = ds"
proof -
  from assms have "list_all is_digit (rev ds)"
    by (simp add: list_all_iff)
  then show ?thesis
    by (simp add: thousands_def filter_group_rev rev_filter [symmetric])
qed

lemma group_rev_short: "length ds < 4 \<Longrightarrow> group_rev ds = ds"
  by (cases ds rule: group_rev.cases) simp_all

lemma group_rev_positions:
  "list_all is_digit ds \<Longrightarrow> j < length (group_rev ds) \<Longrightarrow>
     (if j mod 4 = 3 then group_rev ds ! j = CHR '','' else is_digit (group_rev ds ! j))"
proof (induction "length ds" arbitrary: ds j rule: less_induct)
  case less
  show ?case
  proof (cases "length ds < 4")
    case True
    then have g: "group_rev ds = ds" by (rule group_rev_short)
    with less.prems True have j: "j < 4" and jl: "j < length ds" by simp_all
    from True jl have "j mod 4 \<noteq> 3" by simp
    moreover from less.prems(1) jl have "is_digit (ds ! j)"
      by (simp add: list_all_length)
    ultimately show ?thesis by (simp add: g)
  next
    case False
    then obtain a b c d ds' where ds: "ds = a # b # c # d # ds'"
      by (cases ds rule: group_rev.cases) simp_all
    from less.prems(1) ds have dig: "is_digit a" "is_digit b" "is_digit c" "list_all is_digit (d # ds')"
      by simp_all
    have g: "group_rev ds = a # b # c # CHR '','' # group_rev (d # ds')"
      by (simp add: ds)
    consider "j = 0" | "j = 1" | "j = 2" | "j = 3" | "4 \<le> j" by arith
    then show ?thesis
    proof cases
      case 1
      with dig(1) show ?thesis unfolding g by simp
    next
      case 2
      with dig(2) show ?thesis unfolding g by simp
    next
      case 3
      with dig(3) show ?thesis unfolding g by simp
    next
      case 4
      have "(a # b # c # CHR '','' # group_rev (d # ds')) ! 3 = CHR '',''"
        by (simp add: numeral_3_eq_3)
      with 4 show ?thesis unfolding g by simp
    next
      case 5
      then obtain k0 where "j = 4 + k0"
        using le_Suc_ex by blast
      then have "j = Suc (Suc (Suc (Suc k0)))"
        by simp
      then obtain k where k: "j = Suc (Suc (Suc (Suc k)))" ..
      with less.prems(2) g have kl: "k < length (group_rev (d # ds'))" by simp
      have "length (d # ds') < length ds" by (simp add: ds)
      from less.hyps [OF this dig(4) kl]
      have ih: "if k mod 4 = 3 then group_rev (d # ds') ! k = CHR '','' else is_digit (group_rev (d # ds') ! k)" .
      have m: "j mod 4 = k mod 4"
        unfolding k by presburger
      have n: "group_rev ds ! j = group_rev (d # ds') ! k"
        unfolding g k by simp
      from ih show ?thesis
        unfolding m n .
    qed
  qed
qed

lemma length_group_rev_mod: "ds \<noteq> [] \<Longrightarrow> length (group_rev ds) mod 4 \<noteq> 0"
proof (induction "length ds" arbitrary: ds rule: less_induct)
  case less
  show ?case
  proof (cases "length ds < 4")
    case True
    with less.prems show ?thesis
      by (simp add: group_rev_short)
  next
    case False
    then obtain a b c d ds' where ds: "ds = a # b # c # d # ds'"
      by (cases ds rule: group_rev.cases) simp_all
    have "length (d # ds') < length ds" by (simp add: ds)
    from less.hyps [OF this] have ih: "length (group_rev (d # ds')) mod 4 \<noteq> 0"
      by simp
    have "length (group_rev ds) = length (group_rev (d # ds')) + 4"
      by (simp add: ds)
    with ih show ?thesis
      by simp
  qed
qed

lemma Suc_mod_4: "(Suc j mod 4 = 0) = (j mod 4 = 3)"
  by presburger

lemma thousands_grouped:
  assumes "list_all is_digit ds" and "ds \<noteq> []"
  shows "grouped_by_thousands (thousands ds)"
proof -
  let ?r = "group_rev (rev ds)"
  from assms(1) have dig: "list_all is_digit (rev ds)"
    by (simp add: list_all_iff)
  from assms(2) have ne: "length ?r mod 4 \<noteq> 0"
    by (simp add: length_group_rev_mod)
  have pos: "if (length ?r - i) mod 4 = 0 then rev ?r ! i = CHR '','' else is_digit (rev ?r ! i)"
    if i: "i < length ?r" for i
  proof -
    let ?j = "length ?r - Suc i"
    from i have j: "?j < length ?r" by simp
    from i have "length ?r - i = Suc ?j" by simp
    then have m: "((length ?r - i) mod 4 = 0) = (?j mod 4 = 3)"
      by (simp only: Suc_mod_4)
    from i have n: "rev ?r ! i = ?r ! ?j"
      by (rule rev_nth)
    from group_rev_positions [OF dig j] show ?thesis
      unfolding m n .
  qed
  from ne pos show ?thesis
    by (simp add: grouped_by_thousands_def thousands_def)
qed

lemma round_half_even_near: "\<bar>real_of_int (round_half_even x) - x\<bar> \<le> 1 / 2"
proof -
  have "real_of_int \<lfloor>x\<rfloor> \<le> x" and "x < real_of_int \<lfloor>x\<rfloor> + 1"
    by linarith+
  then show ?thesis
    by (auto simp: round_half_even_def Let_def)
qed

lemma round_half_even_nonneg: "0 \<le> x \<Longrightarrow> 0 \<le> round_half_even x"
proof -
  assume "0 \<le> x"
  then have "0 \<le> \<lfloor>x\<rfloor>" by simp
  then show ?thesis
    by (auto simp: round_half_even_def Let_def)
qed

lemma rounded_magnitude:
  "\<bar>real (nat (round_half_even \<bar>x\<bar>)) - \<bar>x\<bar>\<bar> \<le> 1 / 2"
proof -
  have "0 \<le> round_half_even \<bar>x\<bar>"
    by (rule round_half_even_nonneg) simp
  then have "real (nat (round_half_even \<bar>x\<bar>)) = real_of_int (round_half_even \<bar>x\<bar>)"
    by simp
  with round_half_even_near [of "\<bar>x\<bar>"] show ?thesis by simp
qed

lemma two_digits:
  assumes "k < 100"
  shows "\<exists>d1 d2. zero_pad 2 (digits k) = [d1, d2] \<and> is_digit d1 \<and> is_digit d2
     \<and> read_nat [d1, d2] = k"
proof (cases "k < 10")
  case True
  with digit_char [of k] digit_char [of 0] show ?thesis
    by (simp add: digits.simps [of k] zero_pad_def read_nat_def is_digit_def digit_val_def)
next
  case False
  with assms have q: "k div 10 < 10" by simp
  have r: "k mod 10 < 10" by simp
  from False q have "digits k = [''0123456789'' ! (k div 10), ''0123456789'' ! (k mod 10)]"
    by (simp add: digits.simps [of k] digits.simps [of "k div 10"])
  with digit_char [OF q] digit_char [OF r] show ?thesis
    by (simp add: zero_pad_def read_nat_def)
qed

lemma iloc_last: "xs \<noteq> [] \<Longrightarrow> iloc xs (- 1) = Inr (last xs)"
proof -
  assume ne: "xs \<noteq> []"
  then obtain n where n: "length xs = Suc n"
    by (cases xs) simp_all
  then have "nat (int (length xs) + - 1) = n"
    by simp
  moreover from ne n have "last xs = xs ! n"
    by (simp add: last_conv_nth)
  ultimately show ?thesis
    using n by (simp add: iloc_def)
qed

lemma rounded_nonneg:
  assumes "0 \<le> y"
  shows "\<bar>real (nat (round_half_even y)) - y\<bar> \<le> 1 / 2"
proof -
  from assms have "\<bar>y\<bar> = y" by simp
  with rounded_magnitude [of y] show ?thesis by simp
qed

lemma series_mean_nonempty: "xs \<noteq> [] \<Longrightarrow> series_mean xs = Some (arithmetic_mean xs)"
  by (simp add: series_mean_def arithmetic_mean_def)

lemma format_0f_Some:
  "format_0f (Some x) = (if x < 0 then ''-'' else []) @ digits (nat (round_half_even \<bar>x\<bar>))"
  by (simp add: format_0f_def format_fixed_def)

lemma format_2pct_Some:
  "format_2pct (Some c) =
     (if c < 0 then ''-'' else [])
     @ digits (nat (round_half_even (\<bar>c * 100\<bar> * 100)) div 100)
     @ ''.''
     @ zero_pad 2 (digits (nat (round_half_even (\<bar>c * 100\<bar> * 100)) mod 100))
     @ ''%''"
  by (simp add: format_2pct_def format_fixed_def Let_def)

lemma total_sales_text:
  assumes "rows data \<noteq> []"
  shows "total_sales data =
     Inr (''$'' @ (if sales (last (rows data)) < 0 then ''-'' else [])
           @ thousands (digits (nat (round_half_even \<bar>sales (last (rows data))\<bar>))))"
proof -
  from assms have "iloc (map sales (rows data)) (- 1) = Inr (sales (last (rows data)))"
    by (simp add: iloc_last last_map)
  then show ?thesis
    by (simp add: total_sales_def format_comma_0f_def format_fixed_def)
qed

lemma avg_users_text:
  assumes "rows data \<noteq> []"
  shows "avg_users data =
     Inr ((if arithmetic_mean (map (\<lambda>r. real_of_int (users r)) (rows data)) < 0 then ''-'' else [])
           @ digits (nat (round_half_even
               \<bar>arithmetic_mean (map (\<lambda>r. real_of_int (users r)) (rows data))\<bar>)))"
proof -
  from assms have "map (\<lambda>r. real_of_int (users r)) (rows data) \<noteq> []" by simp
  then have sm: "series_mean (map (\<lambda>r. real_of_int (users r)) (rows data)) =
      Some (arithmetic_mean (map (\<lambda>r. real_of_int (users r)) (rows data)))"
    by (rule series_mean_nonempty)
  show ?thesis
    unfolding avg_users_def sm format_0f_Some ..
qed

lemma conv_rate_text:
  assumes "rows data \<noteq> []"
  shows "conv_rate data =
     Inr ((if arithmetic_mean (map conversion (rows data)) < 0 then ''-'' else [])
           @ digits (nat (round_half_even
               (\<bar>arithmetic_mean (map conversion (rows data)) * 100\<bar> * 100)) div 100)
           @ ''.''
           @ zero_pad 2 (digits (nat (round_half_even
               (\<bar>arithmetic_mean (map conversion (rows data)) * 100\<bar> * 100)) mod 100))
           @ ''%'')"
proof -
  from assms have "map conversion (rows data) \<noteq> []" by simp
  then have sm: "series_mean (map conversion (rows data)) =
      Some (arithmetic_mean (map conversion (rows data)))"
    by (rule series_mean_nonempty)
  show ?thesis
    unfolding conv_rate_def sm format_2pct_Some ..
qed

text \<open>
  C9. On a frame with at least one row no value box raises. The total-sales text is a
  dollar sign, a minus sign if the last row's sales are negative, and the integer
  nearest to the magnitude of the last row's sales, written in decimal digits grouped
  in thousands by commas, with no fraction. The average-users text is the integer
  nearest to the mean of the users column, in decimal digits. The conversion-rate
  text is the mean of the conversion column times 100, rounded to the nearest
  hundredth, written with its integer part, a point, exactly two fraction digits and
  a percent sign.
\<close>

theorem value_box_texts:
  assumes "rows data \<noteq> []"
  shows "\<exists>ns nu nc d1 d2.
      \<bar>real ns - \<bar>sales (last (rows data))\<bar>\<bar> \<le> 1 / 2
    \<and> total_sales data =
        Inr (''$'' @ (if sales (last (rows data)) < 0 then ''-'' else []) @ thousands (digits ns))
    \<and> grouped_by_thousands (thousands (digits ns))
    \<and> read_nat (filter (\<lambda>c. c \<noteq> CHR '','') (thousands (digits ns))) = ns
    \<and> \<bar>real nu - \<bar>arithmetic_mean (map (\<lambda>r. real_of_int (users r)) (rows data))\<bar>\<bar> \<le> 1 / 2
    \<and> avg_users data =
        Inr ((if arithmetic_mean (map (\<lambda>r. real_of_int (users r)) (rows data)) < 0
              then ''-'' else []) @ digits nu)
    \<and> list_all is_digit (digits nu) \<and> read_nat (digits nu) = nu
    \<and> \<bar>real nc / 100 - \<bar>arithmetic_mean (map conversion (rows data)) * 100\<bar>\<bar> \<le> 1 / 200
    \<and> conv_rate data =
        Inr ((if arithmetic_mean (map conversion (rows data)) < 0 then ''-'' else [])
              @ digits (nc div 100) @ ''.'' @ [d1, d2] @ ''%'')
    \<and> list_all is_digit (digits (nc div 100)) \<and> read_nat (digits (nc div 100)) = nc div 100
    \<and> is_digit d1 \<and> is_digit d2 \<and> read_nat [d1, d2] = nc mod 100"
proof -
  let ?s = "sales (last (rows data))"
  let ?u = "arithmetic_mean (map (\<lambda>r. real_of_int (users r)) (rows data))"
  let ?c = "arithmetic_mean (map conversion (rows data))"
  let ?ns = "nat (round_half_even \<bar>?s\<bar>)"
  let ?nu = "nat (round_half_even \<bar>?u\<bar>)"
  let ?nc = "nat (round_half_even (\<bar>?c * 100\<bar> * 100))"
  have s1: "\<bar>real ?ns - \<bar>?s\<bar>\<bar> \<le> 1 / 2"
    by (rule rounded_magnitude)
  have s2: "total_sales data = Inr (''$'' @ (if ?s < 0 then ''-'' else []) @ thousands (digits ?ns))"
    by (rule total_sales_text [OF assms])
  have s3: "grouped_by_thousands (thousands (digits ?ns))"
    using digits_props [of ?ns] by (simp add: thousands_grouped)
  have s4: "read_nat (filter (\<lambda>c. c \<noteq> CHR '','') (thousands (digits ?ns))) = ?ns"
    using digits_props [of ?ns] by (simp add: filter_thousands)
  have u1: "\<bar>real ?nu - \<bar>?u\<bar>\<bar> \<le> 1 / 2"
    by (rule rounded_magnitude)
  have u2: "avg_users data = Inr ((if ?u < 0 then ''-'' else []) @ digits ?nu)"
    by (rule avg_users_text [OF assms])
  have u3: "list_all is_digit (digits ?nu)" and u4: "read_nat (digits ?nu) = ?nu"
    using digits_props [of ?nu] by simp_all
  have "\<bar>real ?nc - \<bar>?c * 100\<bar> * 100\<bar> \<le> 1 / 2"
    by (rule rounded_nonneg) simp
  then have c1: "\<bar>real ?nc / 100 - \<bar>?c * 100\<bar>\<bar> \<le> 1 / 200"
    by (simp add: abs_mult field_simps)
  have "?nc mod 100 < 100" by simp
  from two_digits [OF this]
  obtain d1 d2 where pad: "zero_pad 2 (digits (?nc mod 100)) = [d1, d2]"
    and d1: "is_digit d1" and d2: "is_digit d2" and rd: "read_nat [d1, d2] = ?nc mod 100"
    by blast
  have c2: "conv_rate data =
      Inr ((if ?c < 0 then ''-'' else []) @ digits (?nc div 100) @ ''.'' @ [d1, d2] @ ''%'')"
    using conv_rate_text [OF assms] pad by simp
  have c3: "list_all is_digit (digits (?nc div 100))"
    and c4: "read_nat (digits (?nc div 100)) = ?nc div 100"
    using digits_props [of "?nc div 100"] by simp_all
  from s1 s2 s3 s4 u1 u2 u3 u4 c1 c2 c3 c4 d1 d2 rd show ?thesis
    by (intro exI [of _ ?ns] exI [of _ ?nu] exI [of _ ?nc] exI [of _ d1] exI [of _ d2] conjI)
      assumption+
qed

theorem value_box_texts_witness:
  "rows example_df \<noteq> []
   \<and> (\<exists>ns nu nc d1 d2.
      \<bar>real ns - \<bar>sales (last (rows example_df))\<bar>\<bar> \<le> 1 / 2
    \<and> total_sales example_df =
        Inr (''$'' @ (if sales (last (rows example_df)) < 0 then ''-'' else []) @ thousands (digits ns))
    \<and> grouped_by_thousands (thousands (digits ns))
    \<and> read_nat (filter (\<lambda>c. c \<noteq> CHR '','') (thousands (digits ns))) = ns
    \<and> \<bar>real nu - \<bar>arithmetic_mean (map (\<lambda>r. real_of_int (users r)) (rows example_df))\<bar>\<bar> \<le> 1 / 2
    \<and> avg_users example_df =
        Inr ((if arithmetic_mean (map (\<lambda>r. real_of_int (users r)) (rows example_df)) < 0
              then ''-'' else []) @ digits nu)
    \<and> list_all is_digit (digits nu) \<and> read_nat (digits nu) = nu
    \<and> \<bar>real nc / 100 - \<bar>arithmetic_mean (map conversion (rows example_df)) * 100\<bar>\<bar> \<le> 1 / 200
    \<and> conv_rate example_df =
        Inr ((if arithmetic_mean (map conversion (rows example_df)) < 0 then ''-'' else [])
              @ digits (nc div 100) @ ''.'' @ [d1, d2] @ ''%'')
    \<and> list_all is_digit (digits (nc div 100)) \<and> read_nat (digits (nc div 100)) = nc div 100
    \<and> is_digit d1 \<and> is_digit d2 \<and> read_nat [d1, d2] = nc mod 100)"
proof -
  have h: "rows example_df \<noteq> []"
    by (simp add: example_df_def example_rows_def)
  from value_box_texts [OF h] h show ?thesis
    by (rule_tac conjI) assumption+
qed

lemma digits_small: "n < 10 \<Longrightarrow> digits n = [''0123456789'' ! n]"
  by (simp add: digits.simps [of n])

lemma digits_large:
  "10 \<le> n \<Longrightarrow> digits n = digits (n div 10) @ [''0123456789'' ! (n mod 10)]"
  by (simp add: digits.simps [of n])

lemma example_total_sales: "total_sales example_df = Inr ''$1,234,568''"
proof -
  have "round_half_even \<bar>2469135 / 2\<bar> = 1234568"
    by (simp add: round_half_even_def Let_def)
  then show ?thesis
    by (simp add: total_sales_def iloc_def example_df_def example_rows_def format_comma_0f_def
        format_fixed_def thousands_def digits_small digits_large)
qed

lemma example_avg_users: "avg_users example_df = Inr ''500''"
proof -
  have "round_half_even \<bar>1501 / 3\<bar> = 500"
    by (simp add: round_half_even_def Let_def)
  then show ?thesis
    by (simp add: avg_users_def series_mean_def example_df_def example_rows_def format_0f_def
        format_fixed_def digits_small digits_large)
qed

lemma example_conv_rate: "conv_rate example_df = Inr ''3.00%''"
proof -
  have "round_half_even (300 :: real) = 300"
    by (simp add: round_half_even_def Let_def)
  then show ?thesis
    by (simp add: conv_rate_def series_mean_def example_df_def example_rows_def format_2pct_def
        format_fixed_def zero_pad_def digits_small digits_large)
qed

subsection \<open>The summary table\<close>

lemma round2_rounded: "rounded_to_2 (Some (round2 y)) y"
proof -
  have "\<bar>real_of_int (round_half_even (y * 100)) - y * 100\<bar> \<le> 1 / 2"
    by (rule round_half_even_near)
  then have "\<bar>round2 y - y\<bar> \<le> 1 / 200"
    by (simp add: round2_def field_simps)
  then show ?thesis
    by (simp add: rounded_to_2_def round2_def)
qed

lemma round_half_even_of_int: "round_half_even (real_of_int k) = k"
  by (simp add: round_half_even_def)

lemma round2_count: "round2 (real n) = real n"
proof -
  have "real n * 100 = real_of_int (int n * 100)" by simp
  then have "round_half_even (real n * 100) = int n * 100"
    by (simp only: round_half_even_of_int)
  then show ?thesis
    by (simp add: round2_def)
qed

lemma series_min_Min: "xs \<noteq> [] \<Longrightarrow> series_min xs = Some (Min (set xs))"
proof (cases xs)
  case Nil
  assume "xs \<noteq> []"
  with Nil show ?thesis by simp
next
  case (Cons a ys)
  with Min.set_eq_fold [of a ys] show ?thesis
    by (simp add: series_min_def)
qed

lemma series_max_Max: "xs \<noteq> [] \<Longrightarrow> series_max xs = Some (Max (set xs))"
proof (cases xs)
  case Nil
  assume "xs \<noteq> []"
  with Nil show ?thesis by simp
next
  case (Cons a ys)
  with Max.set_eq_fold [of a ys] show ?thesis
    by (simp add: series_max_def)
qed

lemma series_std_sample_sd:
  assumes "2 \<le> length xs"
  shows "series_std xs = Some (sample_sd xs)"
proof -
  have sq: "(sum_list xs / real (length xs) - x)\<^sup>2 = (x - sum_list xs / real (length xs))\<^sup>2" for x
    by (rule power2_commute)
  from assms have d: "real (length xs - Suc 0) = real (length xs) - 1"
    by (simp add: of_nat_diff)
  from assms have "\<not> length xs \<le> 1" by simp
  then show ?thesis
    by (simp add: series_std_def sample_sd_def arithmetic_mean_def Let_def sq d del: of_nat_diff)
qed

lemma series_std_undefined: "length xs \<le> 1 \<Longrightarrow> series_std xs = None"
  by (simp add: series_std_def)

lemma lerp_ceiling:
  fixes h :: real and s :: "real list"
  assumes "0 \<le> h" and "h \<le> real m"
  shows "s ! nat \<lfloor>h\<rfloor> + (s ! min (nat \<lfloor>h\<rfloor> + 1) m - s ! nat \<lfloor>h\<rfloor>) * (h - real (nat \<lfloor>h\<rfloor>))
      = s ! nat \<lfloor>h\<rfloor> + (h - of_int \<lfloor>h\<rfloor>) * (s ! nat \<lceil>h\<rceil> - s ! nat \<lfloor>h\<rfloor>)"
proof -
  from assms(1) have f0: "0 \<le> \<lfloor>h\<rfloor>" by simp
  then have fl: "real (nat \<lfloor>h\<rfloor>) = of_int \<lfloor>h\<rfloor>" by simp
  show ?thesis
  proof (cases "of_int \<lfloor>h\<rfloor> = h")
    case True
    then have z: "h - of_int \<lfloor>h\<rfloor> = 0" by linarith
    show ?thesis unfolding fl z by simp
  next
    case False
    then have c: "\<lceil>h\<rceil> = \<lfloor>h\<rfloor> + 1"
      by (simp add: ceiling_altdef)
    from False have "of_int \<lfloor>h\<rfloor> < h"
      by (simp add: less_le)
    with assms(2) have "real_of_int \<lfloor>h\<rfloor> < real m" by linarith
    then have "\<lfloor>h\<rfloor> < int m"
      by (metis of_int_less_iff of_int_of_nat_eq)
    with f0 have "nat \<lfloor>h\<rfloor> + 1 \<le> m" by linarith
    then have m: "min (nat \<lfloor>h\<rfloor> + 1) m = nat \<lfloor>h\<rfloor> + 1"
      by (rule min_absorb1)
    from f0 have "nat (\<lfloor>h\<rfloor> + 1) = nat \<lfloor>h\<rfloor> + 1" by linarith
    with c have n: "nat \<lceil>h\<rceil> = nat \<lfloor>h\<rfloor> + 1" by (simp only:)
    show ?thesis unfolding m n fl by (simp add: mult.commute)
  qed
qed

lemma series_quantile_linear:
  assumes "xs \<noteq> []" and "0 \<le> q" and "q \<le> 1"
  shows "series_quantile q xs = Some (percentile_linear q xs)"
proof -
  let ?m = "length xs - 1"
  let ?h = "q * real ?m"
  from assms(1) have "1 \<le> length xs" by (cases xs) simp_all
  then have hh: "q * (real (length xs) - 1) = ?h"
    by (simp add: of_nat_diff)
  from assms(2) have h0: "0 \<le> ?h" by simp
  from mult_right_mono [OF assms(3), of "real ?m"] have h1: "?h \<le> real ?m"
    by simp
  from assms(1) have "series_quantile q xs =
      Some (sort xs ! nat \<lfloor>?h\<rfloor>
            + (sort xs ! min (nat \<lfloor>?h\<rfloor> + 1) ?m - sort xs ! nat \<lfloor>?h\<rfloor>) * (?h - real (nat \<lfloor>?h\<rfloor>)))"
    unfolding series_quantile_def Let_def by (simp only: if_False)
  also have "\<dots> = Some (percentile_linear q xs)"
    unfolding percentile_linear_def Let_def hh
    by (simp only: lerp_ceiling [OF h0 h1])
  finally show ?thesis .
qed

lemma describe_empty:
  "round_stats (describe []) =
     \<lparr>st_count = 0, st_mean = None, st_std = None, st_min = None, st_q25 = None,
      st_q50 = None, st_q75 = None, st_max = None\<rparr>"
  using round2_count [of 0]
  by (simp add: round_stats_def describe_def series_mean_def series_std_def series_min_def
      series_max_def series_quantile_def)

lemma describe_summarises: "summarises xs (round_stats (describe xs))"
proof (cases "xs = []")
  case True
  then show ?thesis
    by (simp add: describe_empty summarises_def)
next
  case False
  have cnt: "st_count (round_stats (describe xs)) = real (length xs)"
    by (simp add: round_stats_def describe_def round2_count)
  have mean: "rounded_to_2 (st_mean (round_stats (describe xs))) (arithmetic_mean xs)"
    using False by (simp add: round_stats_def describe_def series_mean_nonempty round2_rounded)
  have mn: "rounded_to_2 (st_min (round_stats (describe xs))) (Min (set xs))"
    using False by (simp add: round_stats_def describe_def series_min_Min round2_rounded)
  have mx: "rounded_to_2 (st_max (round_stats (describe xs))) (Max (set xs))"
    using False by (simp add: round_stats_def describe_def series_max_Max round2_rounded)
  have q25: "rounded_to_2 (st_q25 (round_stats (describe xs))) (percentile_linear (1 / 4) xs)"
    using series_quantile_linear [OF False, of "1 / 4"]
    by (simp add: round_stats_def describe_def round2_rounded)
  have q50: "rounded_to_2 (st_q50 (round_stats (describe xs))) (percentile_linear (1 / 2) xs)"
    using series_quantile_linear [OF False, of "1 / 2"]
    by (simp add: round_stats_def describe_def round2_rounded)
  have q75: "rounded_to_2 (st_q75 (round_stats (describe xs))) (percentile_linear (3 / 4) xs)"
    using series_quantile_linear [OF False, of "3 / 4"]
    by (simp add: round_stats_def describe_def round2_rounded)
  have sd: "if length xs = 1 then st_std (round_stats (describe xs)) = None
      else rounded_to_2 (st_std (round_stats (describe xs))) (sample_sd xs)"
  proof (cases "length xs = 1")
    case True
    then show ?thesis
      by (simp add: round_stats_def describe_def series_std_undefined)
  next
    case one: False
    from False have "length xs \<noteq> 0" by simp
    with one have "2 \<le> length xs"
      by arith
    from series_std_sample_sd [OF this] one show ?thesis
      by (simp add: round_stats_def describe_def round2_rounded)
  qed
  from False cnt mean mn mx q25 q50 q75 sd show ?thesis
    unfolding summarises_def by simp
qed

text \<open>
  C5. \<open>summary_table\<close> returns one column of statistics for each of sales, users and
  conversion, in this order. In each, the count is the number of rows. On a frame with
  rows, the mean, minimum, 25th, 50th and 75th percentile (linear interpolation) and
  maximum are those of the column, each rounded to two decimal digits, and so is the
  sample standard deviation when there are at least two rows (with one row it is
  undefined). On a frame without rows the count is 0 and every other statistic is
  undefined.
\<close>

theorem summary_table_stats:
  "\<exists>ss su sc.
      summary_table data = [(''sales'', ss), (''users'', su), (''conversion'', sc)]
    \<and> summarises (map sales (rows data)) ss
    \<and> summarises (map (\<lambda>r. real_of_int (users r)) (rows data)) su
    \<and> summarises (map conversion (rows data)) sc"
proof -
  let ?ss = "round_stats (describe (map sales (rows data)))"
  let ?su = "round_stats (describe (map (\<lambda>r. real_of_int (users r)) (rows data)))"
  let ?sc = "round_stats (describe (map conversion (rows data)))"
  have "summary_table data = [(''sales'', ?ss), (''users'', ?su), (''conversion'', ?sc)]"
    by (simp add: summary_table_def)
  moreover have "summarises (map sales (rows data)) ?ss"
    by (rule describe_summarises)
  moreover have "summarises (map (\<lambda>r. real_of_int (users r)) (rows data)) ?su"
    by (rule describe_summarises)
  moreover have "summarises (map conversion (rows data)) ?sc"
    by (rule describe_summarises)
  ultimately show ?thesis
    by blast
qed

theorem summary_table_stats_witness:
  "rows example_df \<noteq> []
   \<and> (\<exists>ss su sc.
      summary_table example_df = [(''sales'', ss), (''users'', su), (''conversion'', sc)]
    \<and> summarises (map sales (rows example_df)) ss
    \<and> summarises (map (\<lambda>r. real_of_int (users r)) (rows example_df)) su
    \<and> summarises (map conversion (rows example_df)) sc)
   \<and> rows (empty_frame) = []
   \<and> (\<exists>ss su sc.
      summary_table (empty_frame) =
        [(''sales'', ss), (''users'', su), (''conversion'', sc)]
    \<and> st_count ss = 0 \<and> st_count su = 0 \<and> st_count sc = 0
    \<and> st_mean ss = None \<and> st_std ss = None \<and> st_min ss = None \<and> st_q25 ss = None
    \<and> st_q50 ss = None \<and> st_q75 ss = None \<and> st_max ss = None)"
proof -
  have ne: "rows example_df \<noteq> []"
    by (simp add: example_df_def example_rows_def)
  have em: "rows empty_frame = []"
    by (simp add: empty_frame_def)
  from summary_table_stats [of "empty_frame"]
  obtain ss su sc where
    t: "summary_table (empty_frame) =
        [(''sales'', ss), (''users'', su), (''conversion'', sc)]"
    and a: "summarises (map sales (rows (empty_frame))) ss"
    and b: "summarises (map (\<lambda>r. real_of_int (users r)) (rows (empty_frame))) su"
    and c: "summarises (map conversion (rows (empty_frame))) sc"
    by (elim exE conjE) (rule that)
  from a b c have "st_count ss = 0 \<and> st_count su = 0 \<and> st_count sc = 0
    \<and> st_mean ss = None \<and> st_std ss = None \<and> st_min ss = None \<and> st_q25 ss = None
    \<and> st_q50 ss = None \<and> st_q75 ss = None \<and> st_max ss = None"
    unfolding em by (simp add: summarises_def)
  with t have e: "\<exists>ss su sc.
      summary_table (empty_frame) =
        [(''sales'', ss), (''users'', su), (''conversion'', sc)]
    \<and> st_count ss = 0 \<and> st_count su = 0 \<and> st_count sc = 0
    \<and> st_mean ss = None \<and> st_std ss = None \<and> st_min ss = None \<and> st_q25 ss = None
    \<and> st_q50 ss = None \<and> st_q75 ss = None \<and> st_max ss = None"
    by blast
  from ne summary_table_stats [of example_df] em e show ?thesis
    by (intro conjI) assumption+
qed

lemma example_users_summary:
  "st_count (round_stats (describe [500, 503, 498])) = 3
   \<and> st_min (round_stats (describe [500, 503, 498])) = Some 498
   \<and> st_q25 (round_stats (describe [500, 503, 498])) = Some 499
   \<and> st_q50 (round_stats (describe [500, 503, 498])) = Some 500
   \<and> st_q75 (round_stats (describe [500, 503, 498])) = Some (1003 / 2)
   \<and> st_max (round_stats (describe [500, 503, 498])) = Some 503
   \<and> st_mean (round_stats (describe [500, 503, 498])) = Some (50033 / 100)"
  by (simp add: round_stats_def describe_def series_mean_def series_min_def series_max_def
      series_quantile_def round2_def round_half_even_def Let_def)

lemma example_std:
  "st_std (round_stats (describe [1, 2, 3])) = Some 1
   \<and> st_std (round_stats (describe [5])) = None"
  by (simp add: round_stats_def describe_def series_std_def round2_def round_half_even_def Let_def)

end
